theory Spec2Isabelle
  imports
    Complex_Main
    "HOL-Library.Sublist"
    "HOL-Library.Multiset"
    "HOL-Library.Char_ord"
    "HOL-Library.List_Lexorder"
    "HOL-Library.Product_Lexorder"
    "HOL-Library.Log_Nat"
begin

unbundle bit_operations_syntax

section \<open>Python strings\<close>

text \<open>
  A Python \<open>str\<close> is modelled as a \<open>string\<close>, one \<open>char\<close> per code point, so the
  model covers the strings whose code points are below 256. The backslash is
  \<open>CHR 0x5C\<close>.
\<close>

definition bslash :: char where
  "bslash = CHR 0x5C"

text \<open>\<open>sub in s\<close>: the substring test.\<close>

fun str_in :: "string \<Rightarrow> string \<Rightarrow> bool" where
  "str_in sub [] = (sub = [])"
| "str_in sub (c # cs) = (prefix sub (c # cs) \<or> str_in sub cs)"

text \<open>
  \<open>s.replace(old, new)\<close> for a non-empty \<open>old\<close>: the occurrences are found from the
  left and do not overlap. (The source only calls it with the literals
  \<open>"\\"\<close> and \<open>"//"\<close>; an empty \<open>old\<close> leaves the string as it is here.)
\<close>

function py_replace :: "string \<Rightarrow> string \<Rightarrow> string \<Rightarrow> string" where
  "py_replace old new [] = []"
| "py_replace old new (c # cs) =
     (if old \<noteq> [] \<and> prefix old (c # cs)
      then new @ py_replace old new (drop (length old) (c # cs))
      else c # py_replace old new cs)"
  by pat_completeness auto

termination
  by (relation "measure (\<lambda>(old, new, s). length s)") auto

section \<open>Remote path rules\<close>

text \<open>
  \<^verbatim>\<open>
  def normalize_remote(path: str) -> str:
      if not path:
          return "/"
      path = path.replace("\\", "/")
      while "//" in path:
          path = path.replace("//", "/")
      return path
  \<close>
  The loop is \<open>collapse\<close>; each round shortens the path, which is its measure.
\<close>

lemma length_py_replace_dslash_le:
  "length (py_replace ''//'' ''/'' s) \<le> length s"
  by (induction "''//''" "''/''" s rule: py_replace.induct) auto

lemma length_py_replace_dslash_less:
  "str_in ''//'' s \<Longrightarrow> length (py_replace ''//'' ''/'' s) < length s"
proof (induction "''//''" "''/''" s rule: py_replace.induct)
  case 1
  then show ?case by simp
next
  case (2 c cs)
  show ?case
  proof (cases "prefix ''//'' (c # cs)")
    case True
    have "length (py_replace ''//'' ''/'' (drop 2 (c # cs))) \<le> length (drop 2 (c # cs))"
      by (rule length_py_replace_dslash_le)
    with True show ?thesis by (auto simp: prefix_def)
  next
    case False
    with 2 show ?thesis by auto
  qed
qed

function collapse :: "string \<Rightarrow> string" where
  "collapse p = (if str_in ''//'' p then collapse (py_replace ''//'' ''/'' p) else p)"
  by pat_completeness auto

termination
  by (relation "measure length") (auto simp: length_py_replace_dslash_less)

declare collapse.simps [simp del]

definition normalize_remote :: "string \<Rightarrow> string" where
  "normalize_remote path =
     (if path = [] then ''/''
      else collapse (py_replace [bslash] ''/'' path))"

text \<open>
  \<^verbatim>\<open>
  def join_remote(base: str, name: str) -> str:
      base = normalize_remote(base)
      if base.endswith("/"):
          return base + name
      return base + "/" + name
  \<close>
\<close>

definition endswith :: "string \<Rightarrow> string \<Rightarrow> bool" where
  "endswith s suf = suffix suf s"

definition startswith :: "string \<Rightarrow> string \<Rightarrow> bool" where
  "startswith s pre = prefix pre s"

definition join_remote :: "string \<Rightarrow> string \<Rightarrow> string" where
  "join_remote base name =
     (let base' = normalize_remote base
      in if endswith base' ''/'' then base' @ name else base' @ ''/'' @ name)"

section \<open>More of Python's string and path functions\<close>

text \<open>
  \<open>str.isspace\<close> on the code points below 256, for \<open>s.strip()\<close>; \<open>s.rstrip(chars)\<close>;
  \<open>s.split(sep)\<close> for a one-character separator; \<open>s.lower()\<close> on the code points
  below 256 (the letters \<open>A\<close>--\<open>Z\<close> and the accented capitals \<open>0xC0\<close>--\<open>0xDE\<close> other
  than the multiplication sign).
\<close>

definition isspace :: "char \<Rightarrow> bool" where
  "isspace c = ((of_char c :: nat) \<in> {9, 10, 11, 12, 13, 28, 29, 30, 31, 32, 133, 160})"

definition lstrip :: "string \<Rightarrow> string" where
  "lstrip s = dropWhile isspace s"

definition rstrip :: "string \<Rightarrow> string" where
  "rstrip s = rev (dropWhile isspace (rev s))"

definition strip :: "string \<Rightarrow> string" where
  "strip s = rstrip (lstrip s)"

definition rstrip_chars :: "string \<Rightarrow> string \<Rightarrow> string" where
  "rstrip_chars s chars = rev (dropWhile (\<lambda>c. c \<in> set chars) (rev s))"

fun split_on :: "char \<Rightarrow> string \<Rightarrow> string list" where
  "split_on sep [] = [[]]"
| "split_on sep (c # cs) =
     (if c = sep then [] # split_on sep cs
      else (case split_on sep cs of
              [] \<Rightarrow> [[c]]
            | x # xs \<Rightarrow> (c # x) # xs))"

definition lower_char :: "char \<Rightarrow> char" where
  "lower_char c =
     (let n = (of_char c :: nat)
      in if (65 \<le> n \<and> n \<le> 90) \<or> (192 \<le> n \<and> n \<le> 222 \<and> n \<noteq> 215)
         then char_of (n + 32) else c)"

definition lower :: "string \<Rightarrow> string" where
  "lower s = map lower_char s"

text \<open>\<open>str(n)\<close> for a natural number: its decimal digits.\<close>

fun show_nat :: "nat \<Rightarrow> string" where
  "show_nat n =
     (if n < 10 then [char_of (48 + n)]
      else show_nat (n div 10) @ [char_of (48 + n mod 10)])"

declare show_nat.simps [simp del]

text \<open>
  \<open>os.path\<close> is taken to be \<open>posixpath\<close>:
  \<^verbatim>\<open>
  def basename(p):
      i = p.rfind('/') + 1
      return p[i:]

  def dirname(p):
      i = p.rfind('/') + 1
      head = p[:i]
      if head and head != '/' * len(head):
          head = head.rstrip('/')
      return head

  def join(a, b):          # two arguments
      if b.startswith('/'):
          path = b
      elif not a or a.endswith('/'):
          path = a + b
      else:
          path = a + '/' + b
      return path
  \<close>
\<close>

definition basename :: "string \<Rightarrow> string" where
  "basename p = rev (takeWhile (\<lambda>c. c \<noteq> CHR ''/'') (rev p))"

definition dirname :: "string \<Rightarrow> string" where
  "dirname p =
     (let head = rev (dropWhile (\<lambda>c. c \<noteq> CHR ''/'') (rev p))
      in if head \<noteq> [] \<and> head \<noteq> replicate (length head) CHR ''/''
         then rstrip_chars head ''/'' else head)"

definition path_join :: "string \<Rightarrow> string \<Rightarrow> string" where
  "path_join a b =
     (if startswith b ''/'' then b
      else if a = [] \<or> endswith a ''/'' then a @ b
      else a @ ''/'' @ b)"

text \<open>\<open>a or b\<close> on strings: \<open>a\<close> unless it is empty.\<close>

definition str_or :: "string \<Rightarrow> string \<Rightarrow> string" where
  "str_or a b = (if a \<noteq> [] then a else b)"

section \<open>Exceptions\<close>

text \<open>
  The exceptions the program raises itself are \<open>RuntimeError\<close> with a message and the
  \<open>ZeroDivisionError\<close> of a division by zero; \<open>LibError\<close> stands for any exception
  raised by the SSH library, the operating system or the archive library, with its
  message. \<open>str_exn\<close> is \<open>str(e)\<close>, what the handlers put into their messages.
\<close>

datatype exn = RuntimeError string | ZeroDivisionError | LibError string

fun str_exn :: "exn \<Rightarrow> string" where
  "str_exn (RuntimeError m) = m"
| "str_exn ZeroDivisionError = ''division by zero''"
| "str_exn (LibError m) = m"

section \<open>The SSH/SFTP session\<close>

text \<open>
  \<^verbatim>\<open>
  class SshSftpSession(QtCore.QObject):
      connected_changed = QtCore.Signal(bool)

      def __init__(self):
          self.ssh = None
          self.sftp = None
          self.host = ""
          self.username = ""
  \<close>
  The two handles are \<open>None\<close> or a handle of the library (a number here). The record
  also keeps what the session did to the outside: the values emitted on
  \<open>connected_changed\<close>, oldest first, and the handles on which \<open>close()\<close> was called.
\<close>

type_synonym handle = nat

record session =
  ssh :: "handle option"
  sftp :: "handle option"
  host :: string
  username :: string
  connected_changed :: "bool list"
  close_calls :: "handle list"

definition new_session :: session where
  "new_session = \<lparr>ssh = None, sftp = None, host = [], username = [],
                   connected_changed = [], close_calls = []\<rparr>"

text \<open>
  The network: what the library's calls answer. \<open>ssh_connect\<close> is
  \<open>paramiko.SSHClient().connect(hostname, port, username, password, timeout)\<close>,
  which opens the transport and authenticates, and raises when either fails;
  \<open>open_sftp\<close> opens the file-transfer channel on the client; the two \<open>close\<close> calls
  may raise as well. An exception is given by its message.
\<close>

record network =
  ssh_connect :: "string \<Rightarrow> nat \<Rightarrow> string \<Rightarrow> string \<Rightarrow> nat \<Rightarrow> string + handle"
  open_sftp :: "handle \<Rightarrow> string + handle"
  sftp_close :: "handle \<Rightarrow> string option"
  ssh_close :: "handle \<Rightarrow> string option"

type_synonym 'a sres = "(exn + 'a) \<times> session"

definition is_connected :: "session \<Rightarrow> bool" where
  "is_connected s = (ssh s \<noteq> None \<and> sftp s \<noteq> None)"

text \<open>
  \<^verbatim>\<open>
  def disconnect(self):
      try:
          if self.sftp is not None:
              self.sftp.close()
      except Exception:
          pass
      try:
          if self.ssh is not None:
              self.ssh.close()
      except Exception:
          pass
      self.ssh = None
      self.sftp = None
      self.connected_changed.emit(False)
  \<close>
\<close>

definition close_sftp_if_open :: "network \<Rightarrow> session \<Rightarrow> unit sres" where
  "close_sftp_if_open net s =
     (case sftp s of
        None \<Rightarrow> (Inr (), s)
      | Some h \<Rightarrow>
          (let s' = s\<lparr>close_calls := close_calls s @ [h]\<rparr>
           in case sftp_close net h of
                Some m \<Rightarrow> (Inl (LibError m), s')
              | None \<Rightarrow> (Inr (), s')))"

definition close_ssh_if_open :: "network \<Rightarrow> session \<Rightarrow> unit sres" where
  "close_ssh_if_open net s =
     (case ssh s of
        None \<Rightarrow> (Inr (), s)
      | Some h \<Rightarrow>
          (let s' = s\<lparr>close_calls := close_calls s @ [h]\<rparr>
           in case ssh_close net h of
                Some m \<Rightarrow> (Inl (LibError m), s')
              | None \<Rightarrow> (Inr (), s')))"

text \<open>\<open>try: ... except Exception: pass\<close>: the state goes on, the exception is dropped.\<close>

definition except_pass :: "unit sres \<Rightarrow> unit sres" where
  "except_pass r = (Inr (), snd r)"

definition emit_connected :: "bool \<Rightarrow> session \<Rightarrow> session" where
  "emit_connected b s = s\<lparr>connected_changed := connected_changed s @ [b]\<rparr>"

definition disconnect :: "network \<Rightarrow> session \<Rightarrow> unit sres" where
  "disconnect net s =
     (case except_pass (close_sftp_if_open net s) of
        (Inl e, s1) \<Rightarrow> (Inl e, s1)
      | (Inr _, s1) \<Rightarrow>
          (case except_pass (close_ssh_if_open net s1) of
             (Inl e, s2) \<Rightarrow> (Inl e, s2)
           | (Inr _, s2) \<Rightarrow>
               (Inr (), emit_connected False (s2\<lparr>ssh := None, sftp := None\<rparr>))))"

text \<open>
  \<^verbatim>\<open>
  def connect(self, host, username, password, port=22, timeout=12):
      self.disconnect()
      self.host = host
      self.username = username
      ssh = paramiko.SSHClient()
      ssh.set_missing_host_key_policy(paramiko.AutoAddPolicy())
      ssh.connect(hostname=host, port=port, username=username, password=password,
                  timeout=timeout, allow_agent=False, look_for_keys=False)
      sftp = ssh.open_sftp()
      self.ssh = ssh
      self.sftp = sftp
      self.connected_changed.emit(True)
  \<close>
\<close>

definition connect ::
  "network \<Rightarrow> string \<Rightarrow> string \<Rightarrow> string \<Rightarrow> nat \<Rightarrow> nat \<Rightarrow> session \<Rightarrow> unit sres" where
  "connect net host' username' password port timeout s =
     (case disconnect net s of
        (Inl e, s1) \<Rightarrow> (Inl e, s1)
      | (Inr _, s1) \<Rightarrow>
          (let s2 = s1\<lparr>host := host', username := username'\<rparr>
           in case ssh_connect net host' port username' password timeout of
                Inl m \<Rightarrow> (Inl (LibError m), s2)
              | Inr client \<Rightarrow>
                  (case open_sftp net client of
                     Inl m \<Rightarrow> (Inl (LibError m), s2)
                   | Inr chan \<Rightarrow>
                       (Inr (), emit_connected True (s2\<lparr>ssh := Some client, sftp := Some chan\<rparr>)))))"

section \<open>The remote directory listing\<close>

text \<open>
  An entry of \<open>sftp.listdir_attr\<close> (the library's \<open>SFTPAttributes\<close>: a field the server
  did not send is \<open>None\<close>), and the row built from it:
  \<^verbatim>\<open>
  @dataclass
  class RemoteEntry:
      name: str
      is_dir: bool
      size: int
      mtime: int
      mode: int

  def is_sftp_dir(attr) -> bool:
      return stat.S_ISDIR(attr.st_mode)
  \<close>
  \<open>stat.S_ISDIR(mode)\<close> is \<open>(mode & 0o170000) == 0o040000\<close>, and raises a \<open>TypeError\<close>
  when the mode is \<open>None\<close>.
\<close>

record sftp_attr =
  filename :: string
  st_size :: "nat option"
  st_mtime :: "nat option"
  st_mode :: "nat option"

record remote_entry =
  name :: string
  is_dir :: bool
  fsize :: "nat option"
  mtime :: "nat option"
  mode :: nat

definition S_ISDIR :: "nat \<Rightarrow> bool" where
  "S_ISDIR m = (m AND 61440 = 16384)"

definition is_sftp_dir :: "sftp_attr \<Rightarrow> exn + bool" where
  "is_sftp_dir attr =
     (case st_mode attr of
        None \<Rightarrow> Inl (LibError ''an integer is required (got type NoneType)'')
      | Some m \<Rightarrow> Inr (S_ISDIR m))"

text \<open>
  The window, as far as remote browsing goes: the text of the path field
  (\<open>remote_path_text\<close>), the table's \<open>current_path\<close> and \<open>entries\<close>, the status line, and the
  messages of the error dialogs shown.
  \<^verbatim>\<open>
  def refresh_remote(self):
      if not self.session.is_connected():
          return
      p = normalize_remote(self.remote_path.text().strip() or "/")
      try:
          self.remote_table.set_path(p)
          entries = []
          for attr in self.session.sftp.listdir_attr(p):
              entries.append(RemoteEntry(attr.filename, is_sftp_dir(attr), attr.st_size,
                                         attr.st_mtime, attr.st_mode))
          entries.sort(key=lambda e: (not e.is_dir, e.name.lower()))
          self.remote_table.populate(entries)
          self.set_status(f"Remote: {p}")
      except Exception as e:
          QtWidgets.QMessageBox.critical(self, "Remote list failed", str(e))
  \<close>
  \<open>list.sort\<close> is stable, as \<open>sort_key\<close> is; the keys are compared as Python compares
  tuples: \<open>False < True\<close>, then the strings by code point.
\<close>

record main_window =
  remote_path_text :: string
  current_path :: string
  entries :: "remote_entry list"
  status_text :: string
  error_dialogs :: "string list"

fun build_entries :: "sftp_attr list \<Rightarrow> exn + remote_entry list" where
  "build_entries [] = Inr []"
| "build_entries (attr # attrs) =
     (case is_sftp_dir attr of
        Inl e \<Rightarrow> Inl e
      | Inr d \<Rightarrow>
          (case build_entries attrs of
             Inl e \<Rightarrow> Inl e
           | Inr es \<Rightarrow>
               Inr (\<lparr>name = filename attr, is_dir = d, fsize = st_size attr,
                      mtime = st_mtime attr, mode = the (st_mode attr)\<rparr> # es)))"

definition entry_key :: "remote_entry \<Rightarrow> bool \<times> string" where
  "entry_key e = (\<not> is_dir e, lower (name e))"

definition sort_entries :: "remote_entry list \<Rightarrow> remote_entry list" where
  "sort_entries es = sort_key entry_key es"

definition set_path :: "string \<Rightarrow> main_window \<Rightarrow> main_window" where
  "set_path p ui = ui\<lparr>current_path := normalize_remote p\<rparr>"

definition refresh_remote ::
  "(string \<Rightarrow> string + sftp_attr list) \<Rightarrow> session \<Rightarrow> main_window \<Rightarrow> main_window" where
  "refresh_remote listdir_attr sess ui =
     (if \<not> is_connected sess then ui
      else
        let p = normalize_remote (str_or (strip (remote_path_text ui)) ''/'');
            ui1 = set_path p ui
        in case listdir_attr p of
             Inl m \<Rightarrow> ui1\<lparr>error_dialogs := error_dialogs ui1 @ [m]\<rparr>
           | Inr attrs \<Rightarrow>
               (case build_entries attrs of
                  Inl e \<Rightarrow> ui1\<lparr>error_dialogs := error_dialogs ui1 @ [str_exn e]\<rparr>
                | Inr es \<Rightarrow>
                    ui1\<lparr>entries := sort_entries es, status_text := ''Remote: '' @ p\<rparr>))"

text \<open>
  \<^verbatim>\<open>
  def remote_up(self):
      p = normalize_remote(self.remote_path.text().strip() or "/")
      if p == "/":
          return
      parent = normalize_remote(os.path.dirname(p.rstrip("/")) or "/")
      self.remote_path.setText(parent)
      self.refresh_remote()
  \<close>
\<close>

definition remote_up ::
  "(string \<Rightarrow> string + sftp_attr list) \<Rightarrow> session \<Rightarrow> main_window \<Rightarrow> main_window" where
  "remote_up listdir_attr sess ui =
     (let p = normalize_remote (str_or (strip (remote_path_text ui)) ''/'')
      in if p = ''/'' then ui
         else
           let parent = normalize_remote (str_or (dirname (rstrip_chars p ''/'')) ''/'')
           in refresh_remote listdir_attr sess (ui\<lparr>remote_path_text := parent\<rparr>))"

text \<open>
  The parent of a path as the specification words it: the directory name of the path
  with its trailing slash stripped, \<open>"/"\<close> when that is empty.
\<close>

definition parent_of :: "string \<Rightarrow> string" where
  "parent_of p =
     (let d = dirname (rstrip_chars p ''/'') in if d = [] then ''/'' else d)"

section \<open>The percentage of a transfer\<close>

text \<open>
  The callbacks compute \<open>int((tx / total) * 100)\<close> on two integers: \<open>/\<close> is the true
  division, whose result is the double nearest to the quotient; the product with \<open>100\<close>
  is rounded to the nearest double again; \<open>int\<close> truncates. \<open>round_double\<close> rounds a
  rational to 53 significant bits, to nearest and ties to even (\<open>rne\<close> on the
  significand scaled to \<open>[2^52, 2^53)\<close>, \<open>ilog2\<close> being the binary exponent). Byte counts
  are natural numbers, so nothing negative is rounded; the exponent range of a double
  is not modelled (byte counts stay far inside it). A division by zero raises
  \<open>ZeroDivisionError\<close>.
\<close>

definition rne :: "rat \<Rightarrow> int" where
  "rne x =
     (let f = \<lfloor>x\<rfloor>; d = x - of_int f
      in if d < 1 / 2 then f
         else if 1 / 2 < d then f + 1
         else if even f then f else f + 1)"

definition ilog2 :: "rat \<Rightarrow> int" where
  "ilog2 x =
     (let (a, b) = quotient_of x; d = bitlen a - bitlen b
      in if 2 powi d \<le> x then d else d - 1)"

definition round_double :: "rat \<Rightarrow> rat" where
  "round_double x =
     (if x \<le> 0 then 0
      else let e = ilog2 x
           in of_int (rne (x * 2 powi (52 - e))) * 2 powi (e - 52))"

definition percent :: "nat \<Rightarrow> nat \<Rightarrow> exn + int" where
  "percent tx total_bytes =
     (if total_bytes = 0 then Inl ZeroDivisionError
      else Inr \<lfloor>round_double (round_double (of_nat tx / of_nat total_bytes) * 100)\<rfloor>)"

section \<open>The transfer worker\<close>

text \<open>
  \<^verbatim>\<open>
  class TransferWorker(QtCore.QObject):
      progress = QtCore.Signal(int)        # 0..100
      status = QtCore.Signal(str)
      finished = QtCore.Signal(bool, str)  # ok, message

      def __init__(self, session):
          self.session = session
          self._cancel = False

      def cancel(self):
          self._cancel = True
  \<close>
  The worker's state is its cancellation flag, the signals it has emitted (oldest first)
  and the operations it has made on the remote side: a command run, a \<open>put\<close> or a \<open>get\<close>
  with its two paths and whether the call returned (\<open>True\<close>) or raised (\<open>False\<close>).
\<close>

datatype signal = Progress int | Status string | Finished bool string

datatype remote_op = Exec string | Put string string bool | Get string string bool

record worker =
  cancel :: bool
  signals :: "signal list"
  remote_ops :: "remote_op list"

type_synonym 'a wres = "(exn + 'a) \<times> worker"

definition ret :: "'a \<Rightarrow> worker \<Rightarrow> 'a wres" where
  "ret x w = (Inr x, w)"

definition raise :: "exn \<Rightarrow> worker \<Rightarrow> 'a wres" where
  "raise e w = (Inl e, w)"

definition and_then :: "(worker \<Rightarrow> 'a wres) \<Rightarrow> ('a \<Rightarrow> worker \<Rightarrow> 'b wres) \<Rightarrow> worker \<Rightarrow> 'b wres" where
  "and_then m f w = (case m w of (Inl e, w') \<Rightarrow> (Inl e, w') | (Inr x, w') \<Rightarrow> f x w')"

definition emit :: "signal \<Rightarrow> worker \<Rightarrow> unit wres" where
  "emit sg w = (Inr (), w\<lparr>signals := signals w @ [sg]\<rparr>)"

text \<open>\<open>try: ... except Exception: pass\<close> around a step of the worker.\<close>

definition try_pass :: "(worker \<Rightarrow> unit wres) \<Rightarrow> worker \<Rightarrow> unit wres" where
  "try_pass m w = (Inr (), snd (m w))"

text \<open>
  What the worker meets outside itself. One file transfer of the library
  (\<open>sftp.put\<close> or \<open>sftp.get\<close> with a callback) is given by \<open>ticks\<close>, the calls of the
  callback it makes in order, each with the bytes transferred so far and whether
  \<open>cancel()\<close> was called on the worker (from the window's thread) since the last time
  the worker looked at its flag; by \<open>failure\<close>, the error it raises after these calls
  (\<open>None\<close> when it returns); and by \<open>cancel_late\<close>, whether \<open>cancel()\<close> was called after
  the last callback and before the call ended. An exception raised by the callback leaves
  the library call at once. The other fields are the answers of the operating system,
  of the archive library and of the remote shell; a library error is given by its
  message.
\<close>

record transfer =
  ticks :: "(nat \<times> bool) list"
  failure :: "string option"
  cancel_late :: bool

record world =
  exec_result :: "string \<Rightarrow> nat \<Rightarrow> string + (int \<times> string \<times> string)"
  getsize :: "string \<Rightarrow> string + nat"
  stat_size :: "string \<Rightarrow> string + nat option"
  transfer_of :: "nat \<Rightarrow> transfer"
  isdir :: "string \<Rightarrow> bool"
  abspath :: "string \<Rightarrow> string"
  mktemp :: "string \<Rightarrow> string + string"
  tar_create :: "string \<Rightarrow> string \<Rightarrow> string \<Rightarrow> string option"
  tar_extract :: "string \<Rightarrow> string \<Rightarrow> string option"
  makedirs :: "string \<Rightarrow> string option"
  remove :: "string \<Rightarrow> string option"
  now :: nat

definition os_call :: "string option \<Rightarrow> worker \<Rightarrow> unit wres" where
  "os_call r = (case r of None \<Rightarrow> ret () | Some m \<Rightarrow> raise (LibError m))"

text \<open>
  \<^verbatim>\<open>
  def exec(self, cmd: str, timeout: int = 60) -> tuple[int, str, str]:
      if not self.is_connected():
          raise RuntimeError("Not connected")
      stdin, stdout, stderr = self.ssh.exec_command(cmd, timeout=timeout)
      out = stdout.read().decode(errors="replace")
      err = stderr.read().decode(errors="replace")
      code = stdout.channel.recv_exit_status()
      return code, out, err
  \<close>
\<close>

definition exec :: "session \<Rightarrow> world \<Rightarrow> string \<Rightarrow> nat \<Rightarrow> worker \<Rightarrow> (int \<times> string \<times> string) wres" where
  "exec sess env cmd timeout w =
     (if \<not> is_connected sess then raise (RuntimeError ''Not connected'') w
      else
        let w' = w\<lparr>remote_ops := remote_ops w @ [Exec cmd]\<rparr>
        in case exec_result env cmd timeout of
             Inl m \<Rightarrow> raise (LibError m) w'
           | Inr r \<Rightarrow> ret r w')"

text \<open>The library's transfer loop, calling the callback at each tick.\<close>

fun run_ticks :: "(nat \<Rightarrow> worker \<Rightarrow> unit wres) \<Rightarrow> (nat \<times> bool) list \<Rightarrow> worker \<Rightarrow> unit wres" where
  "run_ticks cb [] w = (Inr (), w)"
| "run_ticks cb ((tx, req) # ts) w =
     (case cb tx (w\<lparr>cancel := cancel w \<or> req\<rparr>) of
        (Inl e, w') \<Rightarrow> (Inl e, w')
      | (Inr _, w') \<Rightarrow> run_ticks cb ts w')"

definition library_transfer :: "transfer \<Rightarrow> (nat \<Rightarrow> worker \<Rightarrow> unit wres) \<Rightarrow> worker \<Rightarrow> unit wres" where
  "library_transfer t cb w =
     (case run_ticks cb (ticks t) w of
        (Inl e, w') \<Rightarrow> (Inl e, w')
      | (Inr _, w') \<Rightarrow>
          (let w'' = w'\<lparr>cancel := cancel w' \<or> cancel_late t\<rparr>
           in case failure t of
                Some m \<Rightarrow> (Inl (LibError m), w'')
              | None \<Rightarrow> (Inr (), w'')))"

text \<open>
  \<open>sftp.put(local_path, remote_path, callback=cb)\<close> and \<open>sftp.get(...)\<close> on
  \<open>self.session.sftp\<close>, which is \<open>None\<close> on a disconnected session: the attribute access
  raises then.
\<close>

definition sftp_put ::
  "session \<Rightarrow> transfer \<Rightarrow> string \<Rightarrow> string \<Rightarrow> (nat \<Rightarrow> worker \<Rightarrow> unit wres) \<Rightarrow> worker \<Rightarrow> unit wres" where
  "sftp_put sess t local_path remote_path cb w =
     (case sftp sess of
        None \<Rightarrow> raise (LibError ''NoneType object has no attribute put'') w
      | Some _ \<Rightarrow>
          (case library_transfer t cb w of
             (r, w') \<Rightarrow> (r, w'\<lparr>remote_ops := remote_ops w' @ [Put local_path remote_path (\<not> isl r)]\<rparr>)))"

definition sftp_get ::
  "session \<Rightarrow> transfer \<Rightarrow> string \<Rightarrow> string \<Rightarrow> (nat \<Rightarrow> worker \<Rightarrow> unit wres) \<Rightarrow> worker \<Rightarrow> unit wres" where
  "sftp_get sess t remote_path local_path cb w =
     (case sftp sess of
        None \<Rightarrow> raise (LibError ''NoneType object has no attribute get'') w
      | Some _ \<Rightarrow>
          (case library_transfer t cb w of
             (r, w') \<Rightarrow> (r, w'\<lparr>remote_ops := remote_ops w' @ [Get remote_path local_path (\<not> isl r)]\<rparr>)))"

text \<open>
  \<^verbatim>\<open>
  def _put_file(self, local_path: str, remote_path: str):
      sftp = self.session.sftp
      total = os.path.getsize(local_path)

      def cb(tx, _total):
          if total > 0:
              pct = int((tx / total) * 100)
              self.progress.emit(max(0, min(100, pct)))
          if self._cancel:
              raise RuntimeError("Cancelled")

      self.status.emit(f"Uploading: {os.path.basename(local_path)}")
      self.progress.emit(0)
      sftp.put(local_path, remote_path, callback=cb)
      self.progress.emit(100)
  \<close>
  The last argument \<open>k\<close> of the model says which transfer of the job this is.
\<close>

definition emit_percent :: "nat \<Rightarrow> nat \<Rightarrow> worker \<Rightarrow> unit wres" where
  "emit_percent tx total_bytes w =
     (case percent tx total_bytes of
        Inl e \<Rightarrow> raise e w
      | Inr pct \<Rightarrow> emit (Progress (max 0 (min 100 pct))) w)"

definition check_cancel :: "worker \<Rightarrow> unit wres" where
  "check_cancel w = (if cancel w then raise (RuntimeError ''Cancelled'') w else ret () w)"

definition put_cb :: "nat \<Rightarrow> nat \<Rightarrow> worker \<Rightarrow> unit wres" where
  "put_cb total_bytes tx =
     and_then (if total_bytes > 0 then emit_percent tx total_bytes else ret ())
       (\<lambda>_. check_cancel)"

definition put_file :: "session \<Rightarrow> world \<Rightarrow> nat \<Rightarrow> string \<Rightarrow> string \<Rightarrow> worker \<Rightarrow> unit wres" where
  "put_file sess env k local_path remote_path w =
     (case getsize env local_path of
        Inl m \<Rightarrow> raise (LibError m) w
      | Inr total_bytes \<Rightarrow>
          and_then (emit (Status (''Uploading: '' @ basename local_path)))
            (\<lambda>_. and_then (emit (Progress 0))
            (\<lambda>_. and_then (sftp_put sess (transfer_of env k) local_path remote_path (put_cb total_bytes))
            (\<lambda>_. emit (Progress 100)))) w)"

text \<open>
  \<^verbatim>\<open>
  def _get_file(self, remote_path: str, local_path: str, remote_size: int | None = None):
      sftp = self.session.sftp
      if remote_size is None:
          try:
              remote_size = sftp.stat(remote_path).st_size
          except Exception:
              remote_size = 0

      def cb(tx, _total):
          if remote_size and remote_size > 0:
              pct = int((tx / remote_size) * 100)
              self.progress.emit(max(0, min(100, pct)))
          if self._cancel:
              raise RuntimeError("Cancelled")

      self.status.emit(f"Downloading: {os.path.basename(remote_path)}")
      self.progress.emit(0)
      sftp.get(remote_path, local_path, callback=cb)
      self.progress.emit(100)
  \<close>
  The size the server reports may be \<open>None\<close>.
\<close>

definition lookup_remote_size :: "session \<Rightarrow> world \<Rightarrow> string \<Rightarrow> nat option \<Rightarrow> nat option" where
  "lookup_remote_size sess env remote_path remote_size =
     (case remote_size of
        Some n \<Rightarrow> Some n
      | None \<Rightarrow>
          (case sftp sess of
             None \<Rightarrow> Some 0
           | Some _ \<Rightarrow>
               (case stat_size env remote_path of
                  Inl _ \<Rightarrow> Some 0
                | Inr sz \<Rightarrow> sz)))"

definition get_cb :: "nat option \<Rightarrow> nat \<Rightarrow> worker \<Rightarrow> unit wres" where
  "get_cb remote_size tx =
     and_then
       (case remote_size of
          None \<Rightarrow> ret ()
        | Some n \<Rightarrow> if n \<noteq> 0 \<and> n > 0 then emit_percent tx n else ret ())
       (\<lambda>_. check_cancel)"

definition get_file ::
  "session \<Rightarrow> world \<Rightarrow> nat \<Rightarrow> string \<Rightarrow> string \<Rightarrow> nat option \<Rightarrow> worker \<Rightarrow> unit wres" where
  "get_file sess env k remote_path local_path remote_size =
     (let remote_size' = lookup_remote_size sess env remote_path remote_size
      in and_then (emit (Status (''Downloading: '' @ basename remote_path)))
           (\<lambda>_. and_then (emit (Progress 0))
           (\<lambda>_. and_then (sftp_get sess (transfer_of env k) remote_path local_path (get_cb remote_size'))
           (\<lambda>_. emit (Progress 100)))))"

section \<open>The four transfer jobs\<close>

text \<open>
  The jobs receive their lists of paths joined with \<open>|\<close>:
  \<open>[p for p in csv.split("|") if p.strip()]\<close>. A path is put into the shell commands
  between single quotes.
\<close>

definition parse_paths :: "string \<Rightarrow> string list" where
  "parse_paths csv = filter (\<lambda>p. strip p \<noteq> []) (split_on (CHR ''|'') csv)"

definition quoted :: "string \<Rightarrow> string" where
  "quoted p = [CHR 0x27] @ p @ [CHR 0x27]"

text \<open>
  \<^verbatim>\<open>
  def upload_files(self, local_paths_csv: str, remote_dir: str):
      try:
          remote_dir = normalize_remote(remote_dir)
          local_paths = [p for p in local_paths_csv.split("|") if p.strip()]
          if not local_paths:
              self.finished.emit(False, "No local files selected.")
              return
          self.status.emit(f"Ensuring remote dir: {remote_dir}")
          self.session.exec(f"mkdir -p '{remote_dir}'")
          for i, lp in enumerate(local_paths, start=1):
              if self._cancel:
                  raise RuntimeError("Cancelled")
              rp = join_remote(remote_dir, os.path.basename(lp))
              self.status.emit(f"[{i}/{len(local_paths)}] Uploading file -> {rp}")
              self._put_file(lp, rp)
          self.finished.emit(True, "Upload completed.")
      except Exception as e:
          self.finished.emit(False, f"Upload failed: {e}")
  \<close>
  \<open>upload_each\<close> is the loop, \<open>n\<close> the number of files and \<open>i\<close> the counter of
  \<open>enumerate\<close>; the \<open>i\<close>-th file is the transfer \<open>i - 1\<close> of the job.
\<close>

fun upload_each ::
  "session \<Rightarrow> world \<Rightarrow> string \<Rightarrow> nat \<Rightarrow> nat \<Rightarrow> string list \<Rightarrow> worker \<Rightarrow> unit wres" where
  "upload_each sess env remote_dir n i [] w = (Inr (), w)"
| "upload_each sess env remote_dir n i (lp # lps) w =
     (if cancel w then raise (RuntimeError ''Cancelled'') w
      else
        let rp = join_remote remote_dir (basename lp)
        in case and_then
                  (emit (Status (''['' @ show_nat i @ ''/'' @ show_nat n
                                 @ ''] Uploading file -> '' @ rp)))
                  (\<lambda>_. put_file sess env (i - 1) lp rp) w of
             (Inl e, w') \<Rightarrow> (Inl e, w')
           | (Inr _, w') \<Rightarrow> upload_each sess env remote_dir n (Suc i) lps w')"

definition upload_files_try :: "session \<Rightarrow> world \<Rightarrow> string \<Rightarrow> string \<Rightarrow> worker \<Rightarrow> unit wres" where
  "upload_files_try sess env local_paths_csv remote_dir0 =
     (let remote_dir = normalize_remote remote_dir0;
          local_paths = parse_paths local_paths_csv
      in if local_paths = [] then emit (Finished False ''No local files selected.'')
         else
           and_then (emit (Status (''Ensuring remote dir: '' @ remote_dir)))
           (\<lambda>_. and_then (exec sess env (''mkdir -p '' @ quoted remote_dir) 60)
           (\<lambda>_. and_then (upload_each sess env remote_dir (length local_paths) 1 local_paths)
           (\<lambda>_. emit (Finished True ''Upload completed.'')))))"

definition upload_files :: "session \<Rightarrow> world \<Rightarrow> string \<Rightarrow> string \<Rightarrow> worker \<Rightarrow> worker" where
  "upload_files sess env local_paths_csv remote_dir w =
     (case upload_files_try sess env local_paths_csv remote_dir w of
        (Inl e, w') \<Rightarrow> snd (emit (Finished False (''Upload failed: '' @ str_exn e)) w')
      | (Inr _, w') \<Rightarrow> w')"

text \<open>
  \<^verbatim>\<open>
  def upload_folder(self, local_folder: str, remote_dir: str, extract_remote: bool):
      try:
          if not os.path.isdir(local_folder):
              self.finished.emit(False, "Selected path is not a folder.")
              return
          remote_dir = normalize_remote(remote_dir)
          folder_name = os.path.basename(os.path.abspath(local_folder))
          tmp = tempfile.NamedTemporaryFile(delete=False, suffix=f"_{folder_name}.tar.gz")
          tmp.close()
          tar_path = tmp.name
          self.status.emit("Compressing folder...")
          self.progress.emit(0)
          with tarfile.open(tar_path, "w:gz") as tar:
              tar.add(local_folder, arcname=folder_name)
          self.status.emit("Ensuring remote dir...")
          self.session.exec(f"mkdir -p '{remote_dir}'")
          remote_tar = join_remote(remote_dir, f"{folder_name}.tar.gz")
          self.status.emit("Uploading compressed folder...")
          self._put_file(tar_path, remote_tar)
          if extract_remote:
              self.status.emit("Extracting on remote...")
              cmd = f"tar -xzf '{remote_tar}' -C '{remote_dir}' && rm -f '{remote_tar}'"
              code, out, err = self.session.exec(cmd, timeout=300)
              if code != 0:
                  raise RuntimeError(f"Remote extract failed: {err.strip() or out.strip()}")
          try:
              os.remove(tar_path)
          except Exception:
              pass
          self.finished.emit(True, "Folder upload completed.")
      except Exception as e:
          self.finished.emit(False, f"Folder upload failed: {e}")
  \<close>
\<close>

definition check_exit :: "string \<Rightarrow> int \<times> string \<times> string \<Rightarrow> worker \<Rightarrow> unit wres" where
  "check_exit what r =
     (case r of (code, out, err) \<Rightarrow>
        if code \<noteq> 0 then raise (RuntimeError (what @ str_or (strip err) (strip out)))
        else ret ())"

definition upload_folder_try ::
  "session \<Rightarrow> world \<Rightarrow> string \<Rightarrow> string \<Rightarrow> bool \<Rightarrow> worker \<Rightarrow> unit wres" where
  "upload_folder_try sess env local_folder remote_dir0 extract_remote =
     (if \<not> isdir env local_folder then emit (Finished False ''Selected path is not a folder.'')
      else
        let remote_dir = normalize_remote remote_dir0;
            folder_name = basename (abspath env local_folder);
            remote_tar = join_remote remote_dir (folder_name @ ''.tar.gz'')
        in case mktemp env (''_'' @ folder_name @ ''.tar.gz'') of
             Inl m \<Rightarrow> raise (LibError m)
           | Inr tar_path \<Rightarrow>
               and_then (emit (Status ''Compressing folder...''))
               (\<lambda>_. and_then (emit (Progress 0))
               (\<lambda>_. and_then (os_call (tar_create env tar_path local_folder folder_name))
               (\<lambda>_. and_then (emit (Status ''Ensuring remote dir...''))
               (\<lambda>_. and_then (exec sess env (''mkdir -p '' @ quoted remote_dir) 60)
               (\<lambda>_. and_then (emit (Status ''Uploading compressed folder...''))
               (\<lambda>_. and_then (put_file sess env 0 tar_path remote_tar)
               (\<lambda>_. and_then
                       (if extract_remote
                        then and_then (emit (Status ''Extracting on remote...''))
                             (\<lambda>_. and_then
                                     (exec sess env
                                        (''tar -xzf '' @ quoted remote_tar @ '' -C ''
                                         @ quoted remote_dir @ '' && rm -f '' @ quoted remote_tar)
                                        300)
                                     (check_exit ''Remote extract failed: ''))
                        else ret ())
               (\<lambda>_. and_then (try_pass (os_call (remove env tar_path)))
               (\<lambda>_. emit (Finished True ''Folder upload completed.'')))))))))))"

definition upload_folder ::
  "session \<Rightarrow> world \<Rightarrow> string \<Rightarrow> string \<Rightarrow> bool \<Rightarrow> worker \<Rightarrow> worker" where
  "upload_folder sess env local_folder remote_dir extract_remote w =
     (case upload_folder_try sess env local_folder remote_dir extract_remote w of
        (Inl e, w') \<Rightarrow> snd (emit (Finished False (''Folder upload failed: '' @ str_exn e)) w')
      | (Inr _, w') \<Rightarrow> w')"

text \<open>
  \<^verbatim>\<open>
  def download_files(self, remote_paths_csv: str, local_dir: str):
      try:
          local_dir = os.path.abspath(local_dir)
          os.makedirs(local_dir, exist_ok=True)
          remote_paths = [p for p in remote_paths_csv.split("|") if p.strip()]
          if not remote_paths:
              self.finished.emit(False, "No remote files selected.")
              return
          for i, rp in enumerate(remote_paths, start=1):
              if self._cancel:
                  raise RuntimeError("Cancelled")
              fname = os.path.basename(rp.rstrip("/"))
              lp = os.path.join(local_dir, fname)
              self.status.emit(f"[{i}/{len(remote_paths)}] Downloading -> {lp}")
              self._get_file(rp, lp)
          self.finished.emit(True, "Download completed.")
      except Exception as e:
          self.finished.emit(False, f"Download failed: {e}")
  \<close>
\<close>

fun download_each ::
  "session \<Rightarrow> world \<Rightarrow> string \<Rightarrow> nat \<Rightarrow> nat \<Rightarrow> string list \<Rightarrow> worker \<Rightarrow> unit wres" where
  "download_each sess env local_dir n i [] w = (Inr (), w)"
| "download_each sess env local_dir n i (rp # rps) w =
     (if cancel w then raise (RuntimeError ''Cancelled'') w
      else
        let fname = basename (rstrip_chars rp ''/'');
            lp = path_join local_dir fname
        in case and_then
                  (emit (Status (''['' @ show_nat i @ ''/'' @ show_nat n
                                 @ ''] Downloading -> '' @ lp)))
                  (\<lambda>_. get_file sess env (i - 1) rp lp None) w of
             (Inl e, w') \<Rightarrow> (Inl e, w')
           | (Inr _, w') \<Rightarrow> download_each sess env local_dir n (Suc i) rps w')"

definition download_files_try :: "session \<Rightarrow> world \<Rightarrow> string \<Rightarrow> string \<Rightarrow> worker \<Rightarrow> unit wres" where
  "download_files_try sess env remote_paths_csv local_dir0 =
     (let local_dir = abspath env local_dir0;
          remote_paths = parse_paths remote_paths_csv
      in and_then (os_call (makedirs env local_dir))
         (\<lambda>_. if remote_paths = [] then emit (Finished False ''No remote files selected.'')
               else
                 and_then (download_each sess env local_dir (length remote_paths) 1 remote_paths)
                 (\<lambda>_. emit (Finished True ''Download completed.''))))"

definition download_files :: "session \<Rightarrow> world \<Rightarrow> string \<Rightarrow> string \<Rightarrow> worker \<Rightarrow> worker" where
  "download_files sess env remote_paths_csv local_dir w =
     (case download_files_try sess env remote_paths_csv local_dir w of
        (Inl e, w') \<Rightarrow> snd (emit (Finished False (''Download failed: '' @ str_exn e)) w')
      | (Inr _, w') \<Rightarrow> w')"

text \<open>
  \<^verbatim>\<open>
  def download_folder(self, remote_folder: str, local_dir: str, extract_local: bool):
      try:
          remote_folder = normalize_remote(remote_folder)
          local_dir = os.path.abspath(local_dir)
          os.makedirs(local_dir, exist_ok=True)
          folder_name = os.path.basename(remote_folder.rstrip("/"))
          remote_tar = normalize_remote(f"/tmp/{folder_name}_{int(time.time())}.tar.gz")
          local_tar = os.path.join(local_dir, os.path.basename(remote_tar))
          self.status.emit("Creating archive on remote...")
          parent = normalize_remote(os.path.dirname(remote_folder.rstrip("/")))
          base = folder_name
          cmd = f"tar -czf '{remote_tar}' -C '{parent}' '{base}'"
          code, out, err = self.session.exec(cmd, timeout=300)
          if code != 0:
              raise RuntimeError(f"Remote archive failed: {err.strip() or out.strip()}")
          self.status.emit("Downloading archive...")
          self._get_file(remote_tar, local_tar)
          self.status.emit("Cleaning remote temp...")
          self.session.exec(f"rm -f '{remote_tar}'")
          if extract_local:
              self.status.emit("Extracting locally...")
              with tarfile.open(local_tar, "r:gz") as tar:
                  tar.extractall(local_dir)
              try:
                  os.remove(local_tar)
              except Exception:
                  pass
          self.finished.emit(True, "Folder download completed.")
      except Exception as e:
          self.finished.emit(False, f"Folder download failed: {e}")
  \<close>
\<close>

definition download_folder_try ::
  "session \<Rightarrow> world \<Rightarrow> string \<Rightarrow> string \<Rightarrow> bool \<Rightarrow> worker \<Rightarrow> unit wres" where
  "download_folder_try sess env remote_folder0 local_dir0 extract_local =
     (let remote_folder = normalize_remote remote_folder0;
          local_dir = abspath env local_dir0;
          folder_name = basename (rstrip_chars remote_folder ''/'');
          remote_tar = normalize_remote
                         (''/tmp/'' @ folder_name @ ''_'' @ show_nat (now env) @ ''.tar.gz'');
          local_tar = path_join local_dir (basename remote_tar);
          parent = normalize_remote (dirname (rstrip_chars remote_folder ''/''))
      in and_then (os_call (makedirs env local_dir))
         (\<lambda>_. and_then (emit (Status ''Creating archive on remote...''))
         (\<lambda>_. and_then
                 (exec sess env
                    (''tar -czf '' @ quoted remote_tar @ '' -C '' @ quoted parent
                     @ '' '' @ quoted folder_name)
                    300)
         (\<lambda>r. and_then (check_exit ''Remote archive failed: '' r)
         (\<lambda>_. and_then (emit (Status ''Downloading archive...''))
         (\<lambda>_. and_then (get_file sess env 0 remote_tar local_tar None)
         (\<lambda>_. and_then (emit (Status ''Cleaning remote temp...''))
         (\<lambda>_. and_then (exec sess env (''rm -f '' @ quoted remote_tar) 60)
         (\<lambda>_. and_then
                 (if extract_local
                  then and_then (emit (Status ''Extracting locally...''))
                       (\<lambda>_. and_then (os_call (tar_extract env local_tar local_dir))
                       (\<lambda>_. try_pass (os_call (remove env local_tar))))
                  else ret ())
         (\<lambda>_. emit (Finished True ''Folder download completed.'')))))))))))"

definition download_folder ::
  "session \<Rightarrow> world \<Rightarrow> string \<Rightarrow> string \<Rightarrow> bool \<Rightarrow> worker \<Rightarrow> worker" where
  "download_folder sess env remote_folder local_dir extract_local w =
     (case download_folder_try sess env remote_folder local_dir extract_local w of
        (Inl e, w') \<Rightarrow> snd (emit (Finished False (''Folder download failed: '' @ str_exn e)) w')
      | (Inr _, w') \<Rightarrow> w')"

text \<open>
  The four slots of the worker, as \<open>TransferController\<close>'s four signals start them.
\<close>

datatype job =
    UploadFiles string string
  | UploadFolder string string bool
  | DownloadFiles string string
  | DownloadFolder string string bool

fun run_job :: "session \<Rightarrow> world \<Rightarrow> job \<Rightarrow> worker \<Rightarrow> worker" where
  "run_job sess env (UploadFiles local_paths_csv remote_dir) w =
     upload_files sess env local_paths_csv remote_dir w"
| "run_job sess env (UploadFolder local_folder remote_dir extract_remote) w =
     upload_folder sess env local_folder remote_dir extract_remote w"
| "run_job sess env (DownloadFiles remote_paths_csv local_dir) w =
     download_files sess env remote_paths_csv local_dir w"
| "run_job sess env (DownloadFolder remote_folder local_dir extract_local) w =
     download_folder sess env remote_folder local_dir extract_local w"

section \<open>Vocabulary of the properties\<close>

fun is_finished :: "signal \<Rightarrow> bool" where
  "is_finished (Finished ok msg) = True"
| "is_finished (Progress v) = False"
| "is_finished (Status m) = False"

text \<open>
  A step is \<open>quiet\<close> when it only appends signals other than \<open>finished\<close>; it \<open>ends_once\<close>
  when it appends such signals and, if it returns, one \<open>finished\<close> signal at the very end.
\<close>

definition quiet :: "(worker \<Rightarrow> 'a wres) \<Rightarrow> bool" where
  "quiet m \<longleftrightarrow>
     (\<forall>w. \<exists>new. signals (snd (m w)) = signals w @ new \<and> (\<forall>s \<in> set new. \<not> is_finished s))"

definition ends_once :: "(worker \<Rightarrow> 'a wres) \<Rightarrow> bool" where
  "ends_once m \<longleftrightarrow>
     (\<forall>w. if isl (fst (m w))
          then \<exists>new. signals (snd (m w)) = signals w @ new \<and> (\<forall>s \<in> set new. \<not> is_finished s)
          else \<exists>pre ok msg. signals (snd (m w)) = signals w @ pre @ [Finished ok msg]
                 \<and> (\<forall>s \<in> set pre. \<not> is_finished s))"

fun progress_values :: "signal list \<Rightarrow> int list" where
  "progress_values [] = []"
| "progress_values (Progress v # ss) = v # progress_values ss"
| "progress_values (Status m # ss) = progress_values ss"
| "progress_values (Finished ok m # ss) = progress_values ss"

definition emitted :: "worker \<Rightarrow> worker \<Rightarrow> signal list" where
  "emitted w w' = drop (length (signals w)) (signals w')"

text \<open>The value a callback emits at a tick, if any: the clamped percentage.\<close>

definition tick_values :: "nat option \<Rightarrow> nat \<Rightarrow> int list" where
  "tick_values rs tx =
     (case rs of
        None \<Rightarrow> []
      | Some n \<Rightarrow> if 0 < n then [max 0 (min 100 (projr (percent tx n)))] else [])"

text \<open>
  A transfer is \<open>clean\<close> when nobody asks for cancellation during it and the library call
  returns. \<open>upload_dest\<close> is where \<open>upload_files\<close> puts a local file.
\<close>

definition clean :: "transfer \<Rightarrow> bool" where
  "clean t \<longleftrightarrow> (\<forall>tk \<in> set (ticks t). \<not> snd tk) \<and> failure t = None \<and> \<not> cancel_late t"

definition upload_dest :: "string \<Rightarrow> string \<Rightarrow> string" where
  "upload_dest remote_dir lp = join_remote (normalize_remote remote_dir) (basename lp)"

text \<open>
  The files on the remote side, as far as the worker's operations determine them: a
  completed \<open>put\<close> leaves the whole local file at its remote path; a \<open>put\<close> that was cut
  short leaves at most a beginning of it there (the library opens the remote file for
  writing, which empties it, before it sends the first chunk and calls the callback); a
  \<open>get\<close> changes nothing; what a shell command does to the files is the parameter
  \<open>shell\<close>.
\<close>

datatype remote_file = Whole string | Partial string

type_synonym remote_fs = "string \<Rightarrow> remote_file option"

fun apply_op :: "(string \<Rightarrow> remote_fs \<Rightarrow> remote_fs) \<Rightarrow> remote_fs \<Rightarrow> remote_op \<Rightarrow> remote_fs" where
  "apply_op shell fs (Exec cmd) = shell cmd fs"
| "apply_op shell fs (Put lp rp ok) = fs(rp \<mapsto> (if ok then Whole lp else Partial lp))"
| "apply_op shell fs (Get rp lp ok) = fs"

definition remote_after ::
  "(string \<Rightarrow> remote_fs \<Rightarrow> remote_fs) \<Rightarrow> remote_fs \<Rightarrow> remote_op list \<Rightarrow> remote_fs" where
  "remote_after shell fs ops = foldl (apply_op shell) fs ops"

section \<open>Example sessions, listings and environments\<close>

definition net_bad_password :: network where
  "net_bad_password =
     \<lparr>ssh_connect = (\<lambda>h port u pw t. Inl ''Authentication failed.''),
      open_sftp = (\<lambda>c. Inr (Suc c)),
      sftp_close = (\<lambda>h. None),
      ssh_close = (\<lambda>h. None)\<rparr>"

definition session_alice :: session where
  "session_alice = \<lparr>ssh = Some 1, sftp = Some 2, host = ''old.example'', username = ''alice'',
                     connected_changed = [True], close_calls = []\<rparr>"

definition net_close_fails :: network where
  "net_close_fails =
     \<lparr>ssh_connect = (\<lambda>h port u pw t. Inr 1),
      open_sftp = (\<lambda>c. Inr (Suc c)),
      sftp_close = (\<lambda>h. Some ''Socket is closed''),
      ssh_close = (\<lambda>h. Some ''Socket is closed'')\<rparr>"

definition listing_zaB :: "sftp_attr list" where
  "listing_zaB =
     [\<lparr>filename = ''z'', st_size = None, st_mtime = None, st_mode = Some 16877\<rparr>,
      \<lparr>filename = ''a'', st_size = Some 3, st_mtime = None, st_mode = Some 33188\<rparr>,
      \<lparr>filename = ''B'', st_size = None, st_mtime = None, st_mode = Some 16877\<rparr>]"

definition listdir_zaB :: "string \<Rightarrow> string + sftp_attr list" where
  "listdir_zaB p = Inr listing_zaB"

definition entries_zaB :: "remote_entry list" where
  "entries_zaB =
     [\<lparr>name = ''z'', is_dir = True, fsize = None, mtime = None, mode = 16877\<rparr>,
      \<lparr>name = ''a'', is_dir = False, fsize = Some 3, mtime = None, mode = 33188\<rparr>,
      \<lparr>name = ''B'', is_dir = True, fsize = None, mtime = None, mode = 16877\<rparr>]"

definition window_home :: main_window where
  "window_home = \<lparr>remote_path_text = ''/home'', current_path = ''/'', entries = [],
                   status_text = [], error_dialogs = []\<rparr>"

definition session_open :: session where
  "session_open = \<lparr>ssh = Some 1, sftp = Some 2, host = ''h'', username = ''u'',
                    connected_changed = [True], close_calls = []\<rparr>"

definition window_ab :: main_window where
  "window_ab = \<lparr>remote_path_text = ''/a/b'', current_path = ''/a/b'', entries = [],
                 status_text = [], error_dialogs = []\<rparr>"

definition transfer_plain :: transfer where
  "transfer_plain = \<lparr>ticks = [(512, False), (1024, False)], failure = None, cancel_late = False\<rparr>"

definition world_demo :: world where
  "world_demo =
     \<lparr>exec_result = (\<lambda>cmd t. Inr (0, [], [])),
      getsize = (\<lambda>p. Inr 1024),
      stat_size = (\<lambda>p. Inr (Some 1024)),
      transfer_of = (\<lambda>k. transfer_plain),
      isdir = (\<lambda>p. True),
      abspath = (\<lambda>p. p),
      mktemp = (\<lambda>suffix. Inr (''/tmp/tmp0'' @ suffix)),
      tar_create = (\<lambda>a b c. None),
      tar_extract = (\<lambda>a b. None),
      makedirs = (\<lambda>p. None),
      remove = (\<lambda>p. None),
      now = 1700\<rparr>"

definition worker_idle :: worker where
  "worker_idle = \<lparr>cancel = False, signals = [], remote_ops = []\<rparr>"

definition world_empty_file :: world where
  "world_empty_file =
     world_demo\<lparr>getsize := (\<lambda>p. Inr 0),
                transfer_of :=
                  (\<lambda>k. \<lparr>ticks = [(0, False), (7, False)], failure = None,
                        cancel_late = False\<rparr>)\<rparr>"

definition transfer_cancelled :: transfer where
  "transfer_cancelled =
     \<lparr>ticks = [(512, False), (1024, True)], failure = None, cancel_late = False\<rparr>"

definition world_cancel_second :: world where
  "world_cancel_second =
     world_demo\<lparr>transfer_of := (\<lambda>k. if k = 1 then transfer_cancelled else transfer_plain)\<rparr>"

definition world_cancel_late :: world where
  "world_cancel_late =
     world_demo\<lparr>transfer_of :=
       (\<lambda>k. \<lparr>ticks = [(1024, False)], failure = None, cancel_late = True\<rparr>)\<rparr>"

section \<open>Properties of the path rules\<close>

lemma collapse_no_dslash: "\<not> str_in ''//'' (collapse p)"
  by (induction p rule: collapse.induct) (subst collapse.simps, simp)

lemma collapse_fixed: "\<not> str_in ''//'' p \<Longrightarrow> collapse p = p"
  by (subst collapse.simps) simp

lemma set_py_replace_dslash: "set (py_replace ''//'' ''/'' s) \<subseteq> set s"
  by (induction "''//''" "''/''" s rule: py_replace.induct) (auto simp: prefix_def)

lemma set_collapse: "set (collapse p) \<subseteq> set p"
proof (induction p rule: collapse.induct)
  case (1 p)
  show ?case
  proof (cases "str_in ''//'' p")
    case True
    with 1 have "set (collapse (py_replace ''//'' ''/'' p)) \<subseteq> set (py_replace ''//'' ''/'' p)"
      by simp
    with True show ?thesis
      using set_py_replace_dslash [of p] by (subst collapse.simps) auto
  next
    case False
    then show ?thesis by (simp add: collapse_fixed)
  qed
qed

lemma py_replace_dslash_Nil_iff: "py_replace ''//'' ''/'' s = [] \<longleftrightarrow> s = []"
  by (induction "''//''" "''/''" s rule: py_replace.induct) auto

lemma collapse_Nil_iff: "collapse p = [] \<longleftrightarrow> p = []"
proof (induction p rule: collapse.induct)
  case (1 p)
  then show ?case
    by (subst collapse.simps) (auto simp: py_replace_dslash_Nil_iff)
qed

lemma py_replace_bslash_map:
  "py_replace [bslash] ''/'' s = map (\<lambda>c. if c = bslash then CHR ''/'' else c) s"
  by (induction "[bslash]" "''/''" s rule: py_replace.induct) (auto simp: prefix_def)

lemma py_replace_bslash_fixed: "bslash \<notin> set s \<Longrightarrow> py_replace [bslash] ''/'' s = s"
  by (induction s) (auto simp: py_replace_bslash_map)

lemma bslash_not_slash: "bslash \<noteq> CHR ''/''"
  by (simp add: bslash_def)

lemma py_replace_bslash_no_bslash: "bslash \<notin> set (py_replace [bslash] ''/'' s)"
  by (auto simp: py_replace_bslash_map bslash_not_slash)

lemma normalize_remote_no_bslash: "bslash \<notin> set (normalize_remote p)"
  using set_collapse [of "py_replace [bslash] ''/'' p"] py_replace_bslash_no_bslash [of p]
  by (auto simp: normalize_remote_def bslash_not_slash)

lemma normalize_remote_no_dslash: "\<not> str_in ''//'' (normalize_remote p)"
  by (simp add: normalize_remote_def collapse_no_dslash prefix_def)

lemma normalize_remote_not_Nil: "normalize_remote p \<noteq> []"
  by (simp add: normalize_remote_def collapse_Nil_iff py_replace_bslash_map)

lemma normalize_remote_fixed:
  "p \<noteq> [] \<Longrightarrow> bslash \<notin> set p \<Longrightarrow> \<not> str_in ''//'' p \<Longrightarrow> normalize_remote p = p"
  by (simp add: normalize_remote_def py_replace_bslash_fixed collapse_fixed)

lemma normalize_remote_idem: "normalize_remote (normalize_remote p) = normalize_remote p"
  by (rule normalize_remote_fixed)
     (rule normalize_remote_not_Nil normalize_remote_no_bslash normalize_remote_no_dslash)+

lemma py_replace_dslash_first:
  "prefix [c] (py_replace ''//'' ''/'' s) \<longleftrightarrow> prefix [c] s"
  by (cases s) (auto simp: prefix_def)

lemma collapse_first: "prefix [c] (collapse s) \<longleftrightarrow> prefix [c] s"
proof (induction s rule: collapse.induct)
  case (1 p)
  then show ?case
    by (subst collapse.simps) (simp add: py_replace_dslash_first)
qed

lemma normalize_remote_first:
  "startswith (normalize_remote p) ''/'' \<longleftrightarrow>
     p = [] \<or> startswith p ''/'' \<or> startswith p [bslash]"
  by (cases p)
     (auto simp: normalize_remote_def startswith_def collapse_first py_replace_bslash_map)

text \<open>
  C1 (as amended). \<open>normalize_remote\<close> is idempotent, its result never contains two
  consecutive \<open>/\<close>, and the empty path gives \<open>"/"\<close>. The result starts with \<open>/\<close>
  exactly when the input is empty or starts with \<open>/\<close> or with a backslash: nothing
  is put in front of a relative path.
\<close>

theorem normalize_remote_props:
  "normalize_remote (normalize_remote p) = normalize_remote p
   \<and> \<not> str_in ''//'' (normalize_remote p)
   \<and> normalize_remote [] = ''/''
   \<and> (startswith (normalize_remote p) ''/'' \<longleftrightarrow>
        p = [] \<or> startswith p ''/'' \<or> startswith p [bslash])"
  by (simp add: normalize_remote_idem normalize_remote_no_dslash normalize_remote_first)
     (simp add: normalize_remote_def)

theorem normalize_remote_props_witness:
  "normalize_remote (normalize_remote (bslash # ''a///b'')) = ''/a/b''
   \<and> \<not> str_in ''//'' ''/a/b''
   \<and> startswith ''/a/b'' ''/''"
proof -
  have "normalize_remote (bslash # ''a///b'') = ''/a/b''"
    by (simp add: normalize_remote_def collapse.simps bslash_def)
  then show ?thesis
    using normalize_remote_props [of "bslash # ''a///b''"] by (simp add: startswith_def)
qed

text \<open>
  C1 as the specification words it fails on a relative path: \<open>"a"\<close> is returned as it
  is, without a leading \<open>/\<close>.
\<close>

theorem normalize_remote_relative_counterexample:
  "normalize_remote ''a'' = ''a'' \<and> \<not> startswith (normalize_remote ''a'') ''/''"
  by (simp add: normalize_remote_def collapse.simps bslash_def startswith_def)

section \<open>Properties of the session\<close>

lemma disconnect_result:
  "disconnect net s =
     (Inr (), s\<lparr>close_calls := close_calls s
                   @ (case sftp s of None \<Rightarrow> [] | Some h \<Rightarrow> [h])
                   @ (case ssh s of None \<Rightarrow> [] | Some h \<Rightarrow> [h]),
                 ssh := None, sftp := None,
                 connected_changed := connected_changed s @ [False]\<rparr>)"
  by (simp add: disconnect_def except_pass_def close_sftp_if_open_def close_ssh_if_open_def
      emit_connected_def Let_def split: option.splits)

text \<open>
  C5. If \<open>connect\<close> fails at any step, that is, if the library's \<open>connect\<close> (opening the
  transport and authenticating) raises, or it succeeds and opening the file-transfer
  channel raises, then \<open>connect\<close> raises that error and leaves the session disconnected:
  \<open>is_connected\<close> is false and neither handle is kept on the session, whatever the
  session was before.
\<close>

theorem connect_failure_disconnected:
  assumes "ssh_connect net h port u pw t = Inl m
           \<or> (\<exists>c. ssh_connect net h port u pw t = Inr c \<and> open_sftp net c = Inl m)"
  shows "fst (connect net h u pw port t s) = Inl (LibError m)
         \<and> \<not> is_connected (snd (connect net h u pw port t s))
         \<and> ssh (snd (connect net h u pw port t s)) = None
         \<and> sftp (snd (connect net h u pw port t s)) = None"
  using assms by (auto simp: connect_def disconnect_result is_connected_def Let_def)

theorem connect_failure_disconnected_witness:
  "is_connected session_alice
   \<and> fst (connect net_bad_password ''new.example'' ''bob'' ''pw'' 22 12 session_alice)
       = Inl (LibError ''Authentication failed.'')
   \<and> \<not> is_connected (snd (connect net_bad_password ''new.example'' ''bob'' ''pw'' 22 12 session_alice))"
proof -
  have "ssh_connect net_bad_password ''new.example'' 22 ''bob'' ''pw'' 12
          = Inl ''Authentication failed.''"
    by (simp add: net_bad_password_def)
  then show ?thesis
    using connect_failure_disconnected
      [of net_bad_password "''new.example''" 22 "''bob''" "''pw''" 12
          "''Authentication failed.''" session_alice]
    by (simp add: session_alice_def is_connected_def)
qed

text \<open>
  C10. A failed \<open>connect\<close> has already overwritten the session's \<open>host\<close> and \<open>username\<close>:
  after \<open>connect(host, username, ...)\<close> raises, both handles are absent and the two
  fields hold the arguments of the failed attempt, not those of the session before.
\<close>

theorem connect_failure_overwrites_identity:
  assumes "fst (connect net h u pw port t s) = Inl e"
  shows "host (snd (connect net h u pw port t s)) = h
         \<and> username (snd (connect net h u pw port t s)) = u
         \<and> ssh (snd (connect net h u pw port t s)) = None
         \<and> sftp (snd (connect net h u pw port t s)) = None"
  using assms
  by (auto simp: connect_def disconnect_result Let_def split: sum.splits)

theorem connect_failure_overwrites_identity_witness:
  "host session_alice = ''old.example'' \<and> username session_alice = ''alice''
   \<and> fst (connect net_bad_password ''new.example'' ''bob'' ''pw'' 22 12 session_alice)
       = Inl (LibError ''Authentication failed.'')
   \<and> host (snd (connect net_bad_password ''new.example'' ''bob'' ''pw'' 22 12 session_alice))
       = ''new.example''
   \<and> username (snd (connect net_bad_password ''new.example'' ''bob'' ''pw'' 22 12 session_alice))
       = ''bob''"
proof -
  have failed: "fst (connect net_bad_password ''new.example'' ''bob'' ''pw'' 22 12 session_alice)
                  = Inl (LibError ''Authentication failed.'')"
    by (simp add: connect_def disconnect_result net_bad_password_def)
  from connect_failure_overwrites_identity [OF failed] failed show ?thesis
    by (simp add: session_alice_def)
qed

text \<open>
  C6. \<open>disconnect\<close> never raises, whatever the two \<open>close\<close> calls do; it leaves both
  handles absent and emits \<open>connected_changed(False)\<close>; \<open>close\<close> is called on the
  file-transfer channel and then on the client, each when present, also when the other
  \<open>close\<close> raises. A second call right after the first does the same on the
  disconnected session: no error, no \<open>close\<close> call, and one more
  \<open>connected_changed(False)\<close>.
\<close>

theorem disconnect_idempotent:
  "fst (disconnect net s) = Inr ()
   \<and> \<not> is_connected (snd (disconnect net s))
   \<and> ssh (snd (disconnect net s)) = None \<and> sftp (snd (disconnect net s)) = None
   \<and> connected_changed (snd (disconnect net s)) = connected_changed s @ [False]
   \<and> close_calls (snd (disconnect net s)) =
        close_calls s @ (case sftp s of None \<Rightarrow> [] | Some h \<Rightarrow> [h])
                      @ (case ssh s of None \<Rightarrow> [] | Some h \<Rightarrow> [h])
   \<and> fst (disconnect net' (snd (disconnect net s))) = Inr ()
   \<and> \<not> is_connected (snd (disconnect net' (snd (disconnect net s))))
   \<and> connected_changed (snd (disconnect net' (snd (disconnect net s))))
        = connected_changed s @ [False, False]
   \<and> close_calls (snd (disconnect net' (snd (disconnect net s))))
        = close_calls (snd (disconnect net s))"
  by (simp add: disconnect_result is_connected_def)

theorem disconnect_idempotent_witness:
  "sftp_close net_close_fails 2 = Some ''Socket is closed''
   \<and> fst (disconnect net_close_fails session_alice) = Inr ()
   \<and> close_calls (snd (disconnect net_close_fails session_alice)) = [2, 1]
   \<and> connected_changed
        (snd (disconnect net_close_fails (snd (disconnect net_close_fails session_alice))))
        = [True, False, False]"
  using disconnect_idempotent [of net_close_fails session_alice net_close_fails]
  by (simp add: session_alice_def net_close_fails_def)

section \<open>Properties of the directory model\<close>

lemma sort_entries_nth_le:
  assumes "i < j" "j < length (sort_entries es)"
  shows "entry_key (sort_entries es ! i) \<le> entry_key (sort_entries es ! j)"
proof -
  have "sorted (map entry_key (sort_entries es))"
    by (simp add: sort_entries_def)
  with assms have "map entry_key (sort_entries es) ! i \<le> map entry_key (sort_entries es) ! j"
    by (intro sorted_nth_mono) auto
  with assms show ?thesis by simp
qed

lemma sort_entries_dirs_first:
  assumes "i < j" "j < length (sort_entries es)" "is_dir (sort_entries es ! j)"
  shows "is_dir (sort_entries es ! i)"
  using sort_entries_nth_le [OF assms(1,2)] assms(3)
  by (auto simp: entry_key_def less_eq_prod_def)

lemma sort_entries_names_ascending:
  assumes "i < j" "j < length (sort_entries es)"
    and "is_dir (sort_entries es ! i) = is_dir (sort_entries es ! j)"
  shows "lower (name (sort_entries es ! i)) \<le> lower (name (sort_entries es ! j))"
  using sort_entries_nth_le [OF assms(1,2)] assms(3)
  by (auto simp: entry_key_def less_eq_prod_def)

lemma lower_examples: "lower ''z'' = ''z''" "lower ''a'' = ''a''" "lower ''B'' = ''b''"
  by code_simp+

lemma sort_entries_example:
  "map name (sort_entries
     [\<lparr>name = ''z'', is_dir = True, fsize = s1, mtime = t1, mode = m1\<rparr>,
      \<lparr>name = ''a'', is_dir = False, fsize = s2, mtime = t2, mode = m2\<rparr>,
      \<lparr>name = ''B'', is_dir = True, fsize = s3, mtime = t3, mode = m3\<rparr>])
   = [''B'', ''z'', ''a'']"
  by (simp add: sort_entries_def entry_key_def lower_examples)

lemma refresh_remote_entries:
  assumes "is_connected sess"
    and "listdir_attr (normalize_remote (str_or (strip (remote_path_text ui)) ''/'')) = Inr attrs"
    and "build_entries attrs = Inr es"
  shows "entries (refresh_remote listdir_attr sess ui) = sort_entries es"
  using assms by (simp add: refresh_remote_def Let_def set_path_def)

text \<open>
  C7. When the session is connected and the listing succeeds, \<open>refresh_remote\<close> shows
  the listed entries (the same entries, as a multiset) in an order where no file comes
  before a directory and, among directories and among files, the lower-cased names
  ascend. In particular the entries \<open>z\<close> (directory), \<open>a\<close> (file), \<open>B\<close> (directory) come
  out as \<open>B\<close>, \<open>z\<close>, \<open>a\<close>.
\<close>

theorem refresh_remote_sorts:
  assumes "is_connected sess"
    and "listdir_attr (normalize_remote (str_or (strip (remote_path_text ui)) ''/'')) = Inr attrs"
    and "build_entries attrs = Inr es"
  shows "mset (entries (refresh_remote listdir_attr sess ui)) = mset es
    \<and> (\<forall>i j. i < j \<longrightarrow> j < length (entries (refresh_remote listdir_attr sess ui)) \<longrightarrow>
          (is_dir (entries (refresh_remote listdir_attr sess ui) ! j)
             \<longrightarrow> is_dir (entries (refresh_remote listdir_attr sess ui) ! i))
          \<and> (is_dir (entries (refresh_remote listdir_attr sess ui) ! i)
               = is_dir (entries (refresh_remote listdir_attr sess ui) ! j)
             \<longrightarrow> lower (name (entries (refresh_remote listdir_attr sess ui) ! i))
                  \<le> lower (name (entries (refresh_remote listdir_attr sess ui) ! j))))
    \<and> map name (sort_entries
         [\<lparr>name = ''z'', is_dir = True, fsize = s1, mtime = t1, mode = m1\<rparr>,
          \<lparr>name = ''a'', is_dir = False, fsize = s2, mtime = t2, mode = m2\<rparr>,
          \<lparr>name = ''B'', is_dir = True, fsize = s3, mtime = t3, mode = m3\<rparr>])
       = [''B'', ''z'', ''a'']"
proof -
  have r: "entries (refresh_remote listdir_attr sess ui) = sort_entries es"
    using assms by (simp add: refresh_remote_def Let_def set_path_def)
  have m: "mset (sort_entries es) = mset es"
    by (simp add: sort_entries_def)
  have o: "\<forall>i j. i < j \<longrightarrow> j < length (sort_entries es) \<longrightarrow>
      (is_dir (sort_entries es ! j) \<longrightarrow> is_dir (sort_entries es ! i))
      \<and> (is_dir (sort_entries es ! i) = is_dir (sort_entries es ! j)
           \<longrightarrow> lower (name (sort_entries es ! i)) \<le> lower (name (sort_entries es ! j)))"
    using sort_entries_dirs_first sort_entries_names_ascending by blast
  show ?thesis
    unfolding r by (rule conjI [OF m conjI [OF o sort_entries_example]])
qed

theorem refresh_remote_sorts_witness:
  "is_connected session_open
   \<and> build_entries listing_zaB = Inr entries_zaB
   \<and> mset (entries (refresh_remote listdir_zaB session_open window_home))
       = mset entries_zaB
   \<and> map name (sort_entries entries_zaB) = [''B'', ''z'', ''a'']"
proof -
  have c: "is_connected session_open"
    by (simp add: session_open_def is_connected_def)
  have b: "build_entries listing_zaB = Inr entries_zaB"
    by (simp add: listing_zaB_def entries_zaB_def is_sftp_dir_def S_ISDIR_def)
  have l: "listdir_zaB (normalize_remote (str_or (strip (remote_path_text window_home)) ''/''))
             = Inr listing_zaB"
    by (simp add: listdir_zaB_def)
  from refresh_remote_sorts
    [where sess = session_open and listdir_attr = listdir_zaB and ui = window_home
       and attrs = listing_zaB and es = entries_zaB
       and ?s1.0 = None and ?t1.0 = None and ?m1.0 = 16877
       and ?s2.0 = "Some 3" and ?t2.0 = None and ?m2.0 = 33188
       and ?s3.0 = None and ?t3.0 = None and ?m3.0 = 16877, OF c l b]
  show ?thesis using c b unfolding entries_zaB_def by blast
qed

lemma str_in_sublist: "str_in sub s \<longleftrightarrow> sublist sub s"
  by (induction s) (auto simp: sublist_Cons_right)

lemma rstrip_chars_prefix: "prefix (rstrip_chars s cs) s"
proof -
  have "rev s = takeWhile (\<lambda>c. c \<in> set cs) (rev s) @ dropWhile (\<lambda>c. c \<in> set cs) (rev s)"
    by simp
  then have "s = rev (dropWhile (\<lambda>c. c \<in> set cs) (rev s)) @ rev (takeWhile (\<lambda>c. c \<in> set cs) (rev s))"
    by (metis rev_append rev_rev_ident)
  then show ?thesis
    unfolding rstrip_chars_def prefix_def by blast
qed

lemma dirname_prefix: "prefix (dirname p) p"
proof -
  let ?head = "rev (dropWhile (\<lambda>c. c \<noteq> CHR ''/'') (rev p))"
  have "rev p = takeWhile (\<lambda>c. c \<noteq> CHR ''/'') (rev p) @ dropWhile (\<lambda>c. c \<noteq> CHR ''/'') (rev p)"
    by simp
  then have "p = ?head @ rev (takeWhile (\<lambda>c. c \<noteq> CHR ''/'') (rev p))"
    by (metis rev_append rev_rev_ident)
  then have h: "prefix ?head p"
    unfolding prefix_def by blast
  have "prefix (rstrip_chars ?head ''/'') ?head"
    by (rule rstrip_chars_prefix)
  with h have "prefix (rstrip_chars ?head ''/'') p"
    by (rule prefix_order.trans[rotated])
  with h show ?thesis
    by (simp add: dirname_def Let_def)
qed

lemma prefix_normalized:
  assumes "prefix d p" "d \<noteq> []" "bslash \<notin> set p" "\<not> str_in ''//'' p"
  shows "normalize_remote d = d"
proof (rule normalize_remote_fixed)
  show "d \<noteq> []" by fact
  show "bslash \<notin> set d" using assms(1,3) set_mono_prefix by blast
  show "\<not> str_in ''//'' d"
    using assms(1,4) unfolding str_in_sublist
    by (meson prefix_imp_sublist sublist_order.order_trans)
qed

lemma normalize_remote_parent:
  assumes "bslash \<notin> set p" "\<not> str_in ''//'' p"
  shows "normalize_remote (str_or (dirname (rstrip_chars p ''/'')) ''/'') = parent_of p"
proof (cases "dirname (rstrip_chars p ''/'') = []")
  case True
  then show ?thesis
    by (simp add: str_or_def parent_of_def normalize_remote_def collapse.simps bslash_def)
next
  case False
  have "prefix (dirname (rstrip_chars p ''/'')) p"
    using dirname_prefix [of "rstrip_chars p ''/''"] rstrip_chars_prefix [of p "''/''"]
    by (rule prefix_order.trans)
  from prefix_normalized [OF this False assms] False show ?thesis
    by (simp add: str_or_def parent_of_def)
qed

lemma remote_path_refresh_remote:
  "remote_path_text (refresh_remote listdir_attr sess ui) = remote_path_text ui"
  by (simp add: refresh_remote_def set_path_def Let_def split: sum.splits)

lemma remote_up_path:
  "remote_path_text (remote_up listdir_attr sess ui) =
     (let p = normalize_remote (str_or (strip (remote_path_text ui)) ''/'')
      in if p = ''/'' then remote_path_text ui else parent_of p)"
  by (simp add: remote_up_def Let_def remote_path_refresh_remote normalize_remote_parent
      normalize_remote_no_bslash normalize_remote_no_dslash)

lemma parent_of_examples:
  "parent_of ''/a/b'' = ''/a''" "parent_of ''/a'' = ''/''" "parent_of ''a'' = ''/''"
  "parent_of ''/a/b/'' = ''/a''"
  by (simp_all add: parent_of_def dirname_def rstrip_chars_def)

lemma current_examples:
  "normalize_remote (str_or (strip ''/a/b'') ''/'') = ''/a/b''"
  "normalize_remote (str_or (strip ''/a'') ''/'') = ''/a''"
  "normalize_remote (str_or (strip ''/'') ''/'') = ''/''"
  by (simp_all add: normalize_remote_def collapse.simps bslash_def str_or_def strip_def
      lstrip_def rstrip_def isspace_def)

text \<open>
  C8. \<open>remote_up\<close> on the current path \<open>"/"\<close> changes nothing. Otherwise it sets the path
  field to the parent of the current path: the directory name of the path with its
  trailing slash stripped, \<open>"/"\<close> when that is empty. On \<open>"/a/b"\<close> it gives \<open>"/a"\<close>, on
  \<open>"/a"\<close> it gives \<open>"/"\<close>. The current path is the normalised, stripped text of the path
  field.
\<close>

theorem remote_up_parent:
  "(normalize_remote (str_or (strip (remote_path_text ui)) ''/'') = ''/''
      \<longrightarrow> remote_up listdir_attr sess ui = ui)
   \<and> (normalize_remote (str_or (strip (remote_path_text ui)) ''/'') \<noteq> ''/''
      \<longrightarrow> remote_path_text (remote_up listdir_attr sess ui)
            = parent_of (normalize_remote (str_or (strip (remote_path_text ui)) ''/'')))
   \<and> (remote_path_text ui = ''/'' \<longrightarrow> remote_up listdir_attr sess ui = ui)
   \<and> (remote_path_text ui = ''/a/b'' \<longrightarrow> remote_path_text (remote_up listdir_attr sess ui) = ''/a'')
   \<and> (remote_path_text ui = ''/a'' \<longrightarrow> remote_path_text (remote_up listdir_attr sess ui) = ''/'')"
proof -
  have noop: "normalize_remote (str_or (strip (remote_path_text ui)) ''/'') = ''/''
                \<Longrightarrow> remote_up listdir_attr sess ui = ui"
    by (simp add: remote_up_def)
  have up: "normalize_remote (str_or (strip (remote_path_text ui)) ''/'') \<noteq> ''/''
      \<Longrightarrow> remote_path_text (remote_up listdir_attr sess ui)
            = parent_of (normalize_remote (str_or (strip (remote_path_text ui)) ''/''))"
    by (simp add: remote_up_path)
  show ?thesis
    using noop up by (auto simp: current_examples parent_of_examples)
qed

theorem remote_up_parent_witness:
  "remote_path_text window_ab = ''/a/b''
   \<and> remote_path_text (remote_up listdir_zaB session_open window_ab) = ''/a''
   \<and> remote_path_text (remote_up listdir_zaB session_open
        (remote_up listdir_zaB session_open window_ab)) = ''/''"
proof -
  have p: "remote_path_text window_ab = ''/a/b''"
    by (simp add: window_ab_def)
  from remote_up_parent [of window_ab listdir_zaB session_open] p
  have one: "remote_path_text (remote_up listdir_zaB session_open window_ab) = ''/a''"
    by blast
  from remote_up_parent [of "remote_up listdir_zaB session_open window_ab" listdir_zaB session_open] one
  have "remote_path_text (remote_up listdir_zaB session_open
          (remote_up listdir_zaB session_open window_ab)) = ''/''"
    by blast
  with p one show ?thesis by blast
qed

section \<open>Properties of the transfer jobs: the terminal event\<close>

lemma quietI:
  assumes "\<And>w. \<exists>new. signals (snd (m w)) = signals w @ new \<and> (\<forall>s \<in> set new. \<not> is_finished s)"
  shows "quiet m"
  using assms by (simp add: quiet_def)

lemma quietD:
  assumes "quiet m"
  obtains new where "signals (snd (m w)) = signals w @ new" "\<forall>s \<in> set new. \<not> is_finished s"
  using assms unfolding quiet_def by blast

lemma quiet_ret: "quiet (ret x)"
  by (simp add: quiet_def ret_def)

lemma quiet_raise: "quiet (raise e)"
  by (simp add: quiet_def raise_def)

lemma quiet_emit: "\<not> is_finished sg \<Longrightarrow> quiet (emit sg)"
  by (simp add: quiet_def emit_def)

lemma quiet_and_then:
  assumes "quiet m" "\<And>x. quiet (f x)"
  shows "quiet (and_then m f)"
proof (rule quietI)
  fix w
  obtain r w1 where m: "m w = (r, w1)" by (cases "m w")
  have "\<exists>new. signals (snd (m w)) = signals w @ new \<and> (\<forall>s \<in> set new. \<not> is_finished s)"
    using assms(1) unfolding quiet_def by blast
  then obtain new1 where n1: "signals w1 = signals w @ new1" "\<forall>s \<in> set new1. \<not> is_finished s"
    using m by auto
  show "\<exists>new. signals (snd (and_then m f w)) = signals w @ new \<and> (\<forall>s \<in> set new. \<not> is_finished s)"
  proof (cases r)
    case (Inl e)
    with m n1 show ?thesis by (auto simp: and_then_def)
  next
    case (Inr x)
    from assms(2) [of x] obtain new2 where
      n2: "signals (snd (f x w1)) = signals w1 @ new2" "\<forall>s \<in> set new2. \<not> is_finished s"
      by (rule quietD)
    have "signals (snd (and_then m f w)) = signals w @ (new1 @ new2)"
      using m Inr n1 n2 by (simp add: and_then_def)
    moreover have "\<forall>s \<in> set (new1 @ new2). \<not> is_finished s"
      using n1 n2 by auto
    ultimately show ?thesis by blast
  qed
qed

lemma quiet_if: "quiet m \<Longrightarrow> quiet n \<Longrightarrow> quiet (if b then m else n)"
  by simp

lemma quiet_try_pass: "quiet m \<Longrightarrow> quiet (try_pass m)"
  by (simp add: quiet_def try_pass_def)

lemma quiet_os_call: "quiet (os_call r)"
  by (cases r) (simp_all add: os_call_def quiet_ret quiet_raise)

lemma quiet_exec: "quiet (exec sess env cmd t)"
  by (simp add: quiet_def exec_def raise_def ret_def Let_def split: sum.splits)

lemma quiet_check_exit: "quiet (check_exit what r)"
  by (cases r) (simp add: check_exit_def quiet_ret quiet_raise)

lemma quiet_check_cancel: "quiet check_cancel"
  by (simp add: quiet_def check_cancel_def raise_def ret_def)

lemma quiet_emit_percent: "quiet (emit_percent tx n)"
  by (simp add: quiet_def emit_percent_def raise_def emit_def split: sum.splits)

lemma quiet_put_cb: "quiet (put_cb n tx)"
  unfolding put_cb_def
  by (intro quiet_and_then quiet_if quiet_emit_percent quiet_ret quiet_check_cancel)

lemma quiet_get_cb: "quiet (get_cb rs tx)"
  unfolding get_cb_def
  by (cases rs) (auto intro!: quiet_and_then quiet_emit_percent quiet_ret quiet_check_cancel)

lemma quiet_run_ticks:
  assumes "\<And>tx. quiet (cb tx)"
  shows "quiet (run_ticks cb ts)"
proof (induction ts)
  case Nil
  show ?case by (simp add: quiet_def)
next
  case (Cons t ts)
  obtain tx req where t: "t = (tx, req)" by (cases t)
  show ?case
  proof (rule quietI)
    fix w :: worker
    let ?w0 = "w\<lparr>cancel := cancel w \<or> req\<rparr>"
    obtain r w1 where c: "cb tx ?w0 = (r, w1)" by (cases "cb tx ?w0")
    have "\<exists>new. signals (snd (cb tx ?w0)) = signals ?w0 @ new
            \<and> (\<forall>s \<in> set new. \<not> is_finished s)"
      using assms [of tx] unfolding quiet_def by blast
    then obtain new1 where
      n1: "signals w1 = signals w @ new1" "\<forall>s \<in> set new1. \<not> is_finished s"
      using c by auto
    show "\<exists>new. signals (snd (run_ticks cb (t # ts) w)) = signals w @ new
            \<and> (\<forall>s \<in> set new. \<not> is_finished s)"
    proof (cases r)
      case (Inl e)
      with c n1 t show ?thesis by auto
    next
      case (Inr u)
      from Cons.IH obtain new2 where
        n2: "signals (snd (run_ticks cb ts w1)) = signals w1 @ new2"
            "\<forall>s \<in> set new2. \<not> is_finished s"
        by (rule quietD)
      have "signals (snd (run_ticks cb (t # ts) w)) = signals w @ (new1 @ new2)"
        using c Inr n1 n2 t by simp
      moreover have "\<forall>s \<in> set (new1 @ new2). \<not> is_finished s"
        using n1 n2 by auto
      ultimately show ?thesis by blast
    qed
  qed
qed

lemma quiet_library_transfer:
  assumes "\<And>tx. quiet (cb tx)"
  shows "quiet (library_transfer t cb)"
proof (rule quietI)
  fix w :: worker
  from quiet_run_ticks [of cb "ticks t", OF assms] obtain new where
    "signals (snd (run_ticks cb (ticks t) w)) = signals w @ new" "\<forall>s \<in> set new. \<not> is_finished s"
    by (rule quietD)
  then show "\<exists>new. signals (snd (library_transfer t cb w)) = signals w @ new
               \<and> (\<forall>s \<in> set new. \<not> is_finished s)"
    by (cases "run_ticks cb (ticks t) w")
       (auto simp: library_transfer_def Let_def split: sum.splits option.splits)
qed

lemma quiet_sftp_put:
  assumes "\<And>tx. quiet (cb tx)"
  shows "quiet (sftp_put sess t lp rp cb)"
proof (rule quietI)
  fix w :: worker
  from quiet_library_transfer [of cb t, OF assms] obtain new where
    "signals (snd (library_transfer t cb w)) = signals w @ new" "\<forall>s \<in> set new. \<not> is_finished s"
    by (rule quietD)
  then show "\<exists>new. signals (snd (sftp_put sess t lp rp cb w)) = signals w @ new
               \<and> (\<forall>s \<in> set new. \<not> is_finished s)"
    by (cases "library_transfer t cb w")
       (auto simp: sftp_put_def raise_def split: option.splits)
qed

lemma quiet_sftp_get:
  assumes "\<And>tx. quiet (cb tx)"
  shows "quiet (sftp_get sess t rp lp cb)"
proof (rule quietI)
  fix w :: worker
  from quiet_library_transfer [of cb t, OF assms] obtain new where
    "signals (snd (library_transfer t cb w)) = signals w @ new" "\<forall>s \<in> set new. \<not> is_finished s"
    by (rule quietD)
  then show "\<exists>new. signals (snd (sftp_get sess t rp lp cb w)) = signals w @ new
               \<and> (\<forall>s \<in> set new. \<not> is_finished s)"
    by (cases "library_transfer t cb w")
       (auto simp: sftp_get_def raise_def split: option.splits)
qed

lemma quiet_put_file: "quiet (put_file sess env k lp rp)"
proof (cases "getsize env lp")
  case (Inl m)
  then have "put_file sess env k lp rp = raise (LibError m)"
    by (simp add: put_file_def fun_eq_iff)
  then show ?thesis by (simp add: quiet_raise)
next
  case (Inr n)
  then have "put_file sess env k lp rp =
      and_then (emit (Status (''Uploading: '' @ basename lp)))
        (\<lambda>_. and_then (emit (Progress 0))
        (\<lambda>_. and_then (sftp_put sess (transfer_of env k) lp rp (put_cb n))
        (\<lambda>_. emit (Progress 100))))"
    by (simp add: put_file_def fun_eq_iff)
  then show ?thesis
    by (simp add: quiet_and_then quiet_emit quiet_sftp_put quiet_put_cb)
qed

lemma quiet_get_file: "quiet (get_file sess env k rp lp rs)"
  unfolding get_file_def Let_def
  by (simp add: quiet_and_then quiet_emit quiet_sftp_get quiet_get_cb)

lemma quiet_upload_each: "quiet (upload_each sess env remote_dir n i lps)"
proof (induction lps arbitrary: i)
  case Nil
  show ?case by (simp add: quiet_def)
next
  case (Cons lp lps)
  let ?step = "and_then
      (emit (Status (''['' @ show_nat i @ ''/'' @ show_nat n @ ''] Uploading file -> ''
                     @ join_remote remote_dir (basename lp))))
      (\<lambda>_. put_file sess env (i - 1) lp (join_remote remote_dir (basename lp)))"
  have eq: "upload_each sess env remote_dir n i (lp # lps) =
      and_then check_cancel
        (\<lambda>_. and_then ?step (\<lambda>_. upload_each sess env remote_dir n (Suc i) lps))"
    by (auto simp: fun_eq_iff and_then_def check_cancel_def raise_def ret_def Let_def
        split: prod.splits sum.splits)
  show ?case
    unfolding eq
    by (intro quiet_and_then quiet_check_cancel quiet_emit quiet_put_file Cons.IH) simp
qed

lemma quiet_download_each: "quiet (download_each sess env local_dir n i rps)"
proof (induction rps arbitrary: i)
  case Nil
  show ?case by (simp add: quiet_def)
next
  case (Cons rp rps)
  let ?lp = "path_join local_dir (basename (rstrip_chars rp ''/''))"
  let ?step = "and_then
      (emit (Status (''['' @ show_nat i @ ''/'' @ show_nat n @ ''] Downloading -> '' @ ?lp)))
      (\<lambda>_. get_file sess env (i - 1) rp ?lp None)"
  have eq: "download_each sess env local_dir n i (rp # rps) =
      and_then check_cancel
        (\<lambda>_. and_then ?step (\<lambda>_. download_each sess env local_dir n (Suc i) rps))"
    by (auto simp: fun_eq_iff and_then_def check_cancel_def raise_def ret_def Let_def
        split: prod.splits sum.splits)
  show ?case
    unfolding eq
    by (intro quiet_and_then quiet_check_cancel quiet_emit quiet_get_file Cons.IH) simp
qed

lemma ends_once_finished: "ends_once (emit (Finished ok msg))"
  by (auto simp: ends_once_def emit_def intro: exI [of _ "[]"])

lemma ends_once_raise: "ends_once (raise e)"
  by (simp add: ends_once_def raise_def)

lemma ends_once_and_then:
  assumes "quiet m" "\<And>x. ends_once (f x)"
  shows "ends_once (and_then m f)"
  unfolding ends_once_def
proof
  fix w
  obtain r w1 where m: "m w = (r, w1)" by (cases "m w")
  have "\<exists>new. signals (snd (m w)) = signals w @ new \<and> (\<forall>s \<in> set new. \<not> is_finished s)"
    using assms(1) unfolding quiet_def by blast
  then obtain new1 where n1: "signals w1 = signals w @ new1" "\<forall>s \<in> set new1. \<not> is_finished s"
    using m by auto
  show "if isl (fst (and_then m f w))
        then \<exists>new. signals (snd (and_then m f w)) = signals w @ new
               \<and> (\<forall>s \<in> set new. \<not> is_finished s)
        else \<exists>pre ok msg. signals (snd (and_then m f w)) = signals w @ pre @ [Finished ok msg]
               \<and> (\<forall>s \<in> set pre. \<not> is_finished s)"
  proof (cases r)
    case (Inl e)
    with m n1 show ?thesis by (auto simp: and_then_def)
  next
    case (Inr x)
    then have at: "and_then m f w = f x w1"
      using m by (simp add: and_then_def)
    show ?thesis
    proof (cases "isl (fst (f x w1))")
      case True
      with assms(2) [of x] obtain new2 where
        "signals (snd (f x w1)) = signals w1 @ new2" "\<forall>s \<in> set new2. \<not> is_finished s"
        unfolding ends_once_def by metis
      with n1 have "signals (snd (f x w1)) = signals w @ (new1 @ new2)"
        "\<forall>s \<in> set (new1 @ new2). \<not> is_finished s"
        by auto
      with True show ?thesis unfolding at by (simp only: if_True) blast
    next
      case False
      with assms(2) [of x] obtain pre ok msg where
        "signals (snd (f x w1)) = signals w1 @ pre @ [Finished ok msg]"
        "\<forall>s \<in> set pre. \<not> is_finished s"
        unfolding ends_once_def by metis
      with n1 have "signals (snd (f x w1)) = signals w @ (new1 @ pre) @ [Finished ok msg]"
        "\<forall>s \<in> set (new1 @ pre). \<not> is_finished s"
        by auto
      with False show ?thesis unfolding at by (simp only: if_False) blast
    qed
  qed
qed

lemma ends_once_upload_files_try: "ends_once (upload_files_try sess env csv dir)"
  unfolding upload_files_try_def Let_def
  by (simp add: ends_once_finished ends_once_and_then quiet_emit quiet_exec quiet_upload_each)

lemma ends_once_download_files_try: "ends_once (download_files_try sess env csv dir)"
  unfolding download_files_try_def Let_def
  by (intro ends_once_and_then quiet_os_call)
     (simp add: ends_once_finished ends_once_and_then quiet_download_each)

lemma quiet_extract_remote:
  "quiet (and_then (emit (Status m)) (\<lambda>_. and_then (exec sess env cmd t) (check_exit what)))"
  by (intro quiet_and_then quiet_emit quiet_exec quiet_check_exit) simp

lemma ends_once_upload_folder_try:
  "ends_once (upload_folder_try sess env folder dir unpack)"
proof (cases "isdir env folder")
  case False
  then show ?thesis by (simp add: upload_folder_try_def ends_once_finished)
next
  case True
  show ?thesis
  proof (cases "mktemp env (''_'' @ basename (abspath env folder) @ ''.tar.gz'')")
    case (Inl m)
    with True show ?thesis by (simp add: upload_folder_try_def Let_def ends_once_raise)
  next
    case (Inr tar_path)
    with True show ?thesis
      unfolding upload_folder_try_def Let_def
      by (simp add: ends_once_finished ends_once_and_then quiet_emit quiet_exec quiet_os_call
          quiet_put_file quiet_try_pass quiet_ret quiet_extract_remote)
  qed
qed

lemma quiet_extract_local:
  "quiet (and_then (emit (Status m))
            (\<lambda>_. and_then (os_call a) (\<lambda>_. try_pass (os_call b))))"
  by (intro quiet_and_then quiet_emit quiet_os_call quiet_try_pass) simp

lemma ends_once_download_folder_try:
  "ends_once (download_folder_try sess env folder dir unpack)"
  unfolding download_folder_try_def Let_def
  by (simp add: ends_once_finished ends_once_and_then quiet_emit quiet_exec quiet_os_call
      quiet_get_file quiet_ret quiet_check_exit quiet_extract_local)

lemma job_ends_once:
  assumes "ends_once m"
  shows "\<exists>pre ok msg.
           signals (case m w of
                      (Inl e, w') \<Rightarrow> snd (emit (Finished False (prefix_msg @ str_exn e)) w')
                    | (Inr x, w') \<Rightarrow> w')
             = signals w @ pre @ [Finished ok msg]
           \<and> (\<forall>s \<in> set pre. \<not> is_finished s)"
proof -
  obtain r w1 where m: "m w = (r, w1)" by (cases "m w")
  show ?thesis
  proof (cases r)
    case (Inl e)
    with assms m obtain new where
      "signals w1 = signals w @ new" "\<forall>s \<in> set new. \<not> is_finished s"
      unfolding ends_once_def by (metis fst_conv snd_conv sum.disc(1))
    with Inl m show ?thesis by (auto simp: emit_def)
  next
    case (Inr x)
    with assms m obtain pre ok msg where
      "signals w1 = signals w @ pre @ [Finished ok msg]" "\<forall>s \<in> set pre. \<not> is_finished s"
      unfolding ends_once_def by (metis fst_conv snd_conv sum.disc(2))
    with Inr m show ?thesis by auto
  qed
qed

text \<open>
  C4. Each of the four jobs, on every input and in every environment, appends to the
  worker's signals a sequence that ends with a \<open>finished(ok, message)\<close> signal and holds
  no other \<open>finished\<close> signal: exactly one terminal event per job, with no progress (or
  status) signal after it.
\<close>

theorem one_terminal_event:
  "\<exists>pre ok msg.
     signals (run_job sess env j w) = signals w @ pre @ [Finished ok msg]
     \<and> (\<forall>s \<in> set pre. \<not> is_finished s)"
proof (cases j)
  case (UploadFiles csv dir)
  then show ?thesis
    using job_ends_once [where m = "upload_files_try sess env csv dir" and w = w
        and prefix_msg = "''Upload failed: ''", OF ends_once_upload_files_try]
    by (simp add: upload_files_def)
next
  case (UploadFolder folder dir unpack)
  then show ?thesis
    using job_ends_once [where m = "upload_folder_try sess env folder dir unpack" and w = w
        and prefix_msg = "''Folder upload failed: ''", OF ends_once_upload_folder_try]
    by (simp add: upload_folder_def)
next
  case (DownloadFiles csv dir)
  then show ?thesis
    using job_ends_once [where m = "download_files_try sess env csv dir" and w = w
        and prefix_msg = "''Download failed: ''", OF ends_once_download_files_try]
    by (simp add: download_files_def)
next
  case (DownloadFolder folder dir unpack)
  then show ?thesis
    using job_ends_once [where m = "download_folder_try sess env folder dir unpack" and w = w
        and prefix_msg = "''Folder download failed: ''", OF ends_once_download_folder_try]
    by (simp add: download_folder_def)
qed

theorem one_terminal_event_witness:
  "length (filter is_finished
     (signals (run_job session_open world_demo (UploadFolder ''/home/u/docs'' ''/srv'' True)
        worker_idle))) = 1
   \<and> signals (run_job new_session world_demo (UploadFiles ''/home/u/a.txt'' ''/srv'') worker_idle)
       = [Status ''Ensuring remote dir: /srv'', Finished False ''Upload failed: Not connected'']"
proof -
  from one_terminal_event
    [of session_open world_demo "UploadFolder ''/home/u/docs'' ''/srv'' True" worker_idle]
  obtain pre ok msg where
    s: "signals (run_job session_open world_demo (UploadFolder ''/home/u/docs'' ''/srv'' True)
          worker_idle) = signals worker_idle @ pre @ [Finished ok msg]"
    and q: "\<forall>s \<in> set pre. \<not> is_finished s"
    by blast
  from q have "filter is_finished pre = []"
    by (simp add: filter_empty_conv)
  with s have one: "length (filter is_finished
     (signals (run_job session_open world_demo (UploadFolder ''/home/u/docs'' ''/srv'' True)
        worker_idle))) = 1"
    by (simp add: worker_idle_def)
  have "parse_paths ''/home/u/a.txt'' = [''/home/u/a.txt'']"
    by (simp add: parse_paths_def strip_def lstrip_def rstrip_def isspace_def)
  moreover have "normalize_remote ''/srv'' = ''/srv''"
    by (simp add: normalize_remote_def collapse.simps bslash_def)
  ultimately have "signals (run_job new_session world_demo
      (UploadFiles ''/home/u/a.txt'' ''/srv'') worker_idle)
       = [Status ''Ensuring remote dir: /srv'', Finished False ''Upload failed: Not connected'']"
    by (simp add: upload_files_def upload_files_try_def and_then_def emit_def exec_def
        raise_def is_connected_def new_session_def worker_idle_def Let_def)
  with one show ?thesis by (rule conjI)
qed

section \<open>Properties of the percentage\<close>

lemma rne_of_int [simp]: "rne (of_int k) = k"
  by (simp add: rne_def)

lemma rne_mono: "x \<le> y \<Longrightarrow> rne x \<le> rne y"
proof -
  assume xy: "x \<le> y"
  have fl: "\<lfloor>x\<rfloor> \<le> \<lfloor>y\<rfloor>" using xy by (rule floor_mono)
  show ?thesis
  proof (cases "\<lfloor>x\<rfloor> = \<lfloor>y\<rfloor>")
    case True
    with xy have "x - of_int \<lfloor>x\<rfloor> \<le> y - of_int \<lfloor>y\<rfloor>" by simp
    with True show ?thesis by (auto simp: rne_def Let_def)
  next
    case False
    with fl have "\<lfloor>x\<rfloor> + 1 \<le> \<lfloor>y\<rfloor>" by simp
    moreover have "rne x \<le> \<lfloor>x\<rfloor> + 1" by (auto simp: rne_def Let_def)
    moreover have "\<lfloor>y\<rfloor> \<le> rne y" by (auto simp: rne_def Let_def)
    ultimately show ?thesis by linarith
  qed
qed

lemma pow2_pos [simp]: "(0::rat) < 2 powi k"
  by (simp add: power_int_def)

lemma ilog2_bounds:
  assumes "0 < x"
  shows "2 powi (ilog2 x) \<le> x \<and> x < 2 powi (ilog2 x + 1)"
proof -
  obtain a b where q: "quotient_of x = (a, b)" by (cases "quotient_of x")
  then have x: "x = of_int a / of_int b" and b: "0 < b"
    by (simp_all add: quotient_of_div quotient_of_denom_pos)
  from assms x b have a: "0 < a"
    by (simp add: zero_less_divide_iff)
  define la where "la = bitlen a"
  define lb where "lb = bitlen b"
  have la1: "1 \<le> la" and lb1: "1 \<le> lb"
    using a b by (auto simp: la_def lb_def bitlen_alt_def)
  from bitlen_bounds [OF a] have "2 ^ nat (la - 1) \<le> a" "a < 2 ^ nat la"
    by (simp_all add: la_def)
  then have "(2::rat) ^ nat (la - 1) \<le> of_int a" "(of_int a :: rat) < 2 ^ nat la"
    by (metis of_int_le_iff of_int_numeral of_int_power, metis of_int_less_iff of_int_numeral of_int_power)
  with la1 have A: "(2::rat) powi (la - 1) \<le> of_int a" "(of_int a :: rat) < 2 powi la"
    by (simp_all add: power_int_def)
  from bitlen_bounds [OF b] have "2 ^ nat (lb - 1) \<le> b" "b < 2 ^ nat lb"
    by (simp_all add: lb_def)
  then have "(2::rat) ^ nat (lb - 1) \<le> of_int b" "(of_int b :: rat) < 2 ^ nat lb"
    by (metis of_int_le_iff of_int_numeral of_int_power, metis of_int_less_iff of_int_numeral of_int_power)
  with lb1 have B: "(2::rat) powi (lb - 1) \<le> of_int b" "(of_int b :: rat) < 2 powi lb"
    by (simp_all add: power_int_def)
  have bpos: "(0::rat) < of_int b" using b by simp
  have up: "x < 2 powi (la - lb + 1)"
  proof -
    have "of_int a < (2::rat) powi la" by fact
    also have "\<dots> = 2 powi (la - lb + 1) * 2 powi (lb - 1)"
      by (simp add: power_int_add [symmetric])
    also have "\<dots> \<le> 2 powi (la - lb + 1) * of_int b"
      using B(1) by (simp add: mult_left_mono)
    finally show ?thesis using bpos by (simp add: x pos_divide_less_eq)
  qed
  have lo: "2 powi (la - lb - 1) < x"
  proof -
    have "2 powi (la - lb - 1) * of_int b < (2::rat) powi (la - lb - 1) * 2 powi lb"
      using B(2) by (simp add: mult_strict_left_mono)
    also have "\<dots> = 2 powi (la - 1)"
      by (simp add: power_int_add [symmetric])
    also have "\<dots> \<le> of_int a" by fact
    finally show ?thesis using bpos by (simp add: x pos_less_divide_eq)
  qed
  show ?thesis
    using up lo q by (auto simp: ilog2_def la_def lb_def Let_def)
qed

lemma ilog2_mono:
  assumes "0 < x" "x \<le> y"
  shows "ilog2 x \<le> ilog2 y"
proof (rule ccontr)
  assume "\<not> ilog2 x \<le> ilog2 y"
  then have "ilog2 y + 1 \<le> ilog2 x" by simp
  then have "(2::rat) powi (ilog2 y + 1) \<le> 2 powi (ilog2 x)"
    by (intro power_int_increasing) simp_all
  moreover have "y < 2 powi (ilog2 y + 1)" "2 powi (ilog2 x) \<le> x"
    using ilog2_bounds [of x] ilog2_bounds [of y] assms by simp_all
  ultimately show False using assms by simp
qed

lemma round_double_bounds:
  assumes "0 < x"
  shows "2 powi (ilog2 x) \<le> round_double x \<and> round_double x \<le> 2 powi (ilog2 x + 1)"
proof -
  define e where "e = ilog2 x"
  define m where "m = x * 2 powi (52 - e)"
  from ilog2_bounds [OF assms] have b: "2 powi e \<le> x" "x < 2 powi (e + 1)"
    by (simp_all add: e_def)
  have "2 powi e * 2 powi (52 - e) \<le> m"
    unfolding m_def using b(1) by (intro mult_right_mono) simp_all
  then have lo: "of_int (2 ^ 52) \<le> m"
    by (simp add: power_int_add [symmetric])
  have "m \<le> 2 powi (e + 1) * 2 powi (52 - e)"
    unfolding m_def using b(2) by (intro mult_right_mono) simp_all
  then have hi: "m \<le> of_int (2 ^ 53)"
    by (simp add: power_int_add [symmetric])
  from rne_mono [OF lo] have lo': "2 ^ 52 \<le> rne m" by (simp only: rne_of_int)
  from rne_mono [OF hi] have hi': "rne m \<le> 2 ^ 53" by (simp only: rne_of_int)
  have r: "round_double x = of_int (rne m) * 2 powi (e - 52)"
    using assms by (simp add: round_double_def Let_def m_def e_def)
  have "(2::rat) powi e = of_int (2 ^ 52) * 2 powi (e - 52)"
    using power_int_add [of "2::rat" 52 "e - 52"] by simp
  also have "\<dots> \<le> of_int (rne m) * 2 powi (e - 52)"
    using lo' by (intro mult_right_mono) (simp_all only: of_int_le_iff, simp)
  finally have L: "2 powi e \<le> round_double x" by (simp add: r)
  have "of_int (rne m) * 2 powi (e - 52) \<le> of_int (2 ^ 53) * (2::rat) powi (e - 52)"
    using hi' by (intro mult_right_mono) (simp_all only: of_int_le_iff, simp)
  also have "\<dots> = 2 powi (e + 1)"
    using power_int_add [of "2::rat" 53 "e - 52"] by (simp add: add.commute)
  finally have U: "round_double x \<le> 2 powi (e + 1)" by (simp add: r)
  from L U show ?thesis by (simp add: e_def)
qed

lemma round_double_nonneg: "0 \<le> round_double x"
proof (cases "0 < x")
  case True
  from round_double_bounds [OF this] have "2 powi ilog2 x \<le> round_double x" by simp
  moreover have "(0::rat) < 2 powi ilog2 x" by simp
  ultimately show ?thesis by linarith
next
  case False
  then show ?thesis by (simp add: round_double_def)
qed

lemma round_double_mono:
  assumes "x \<le> y"
  shows "round_double x \<le> round_double y"
proof (cases "0 < x")
  case False
  then have "round_double x = 0" by (simp add: round_double_def)
  then show ?thesis by (simp add: round_double_nonneg)
next
  case True
  with assms have y: "0 < y" by simp
  have le: "ilog2 x \<le> ilog2 y" by (rule ilog2_mono [OF True assms])
  show ?thesis
  proof (cases "ilog2 x = ilog2 y")
    case same: True
    have "x * 2 powi (52 - ilog2 y) \<le> y * 2 powi (52 - ilog2 y)"
      using assms by (intro mult_right_mono) simp_all
    then have "rne (x * 2 powi (52 - ilog2 y)) \<le> rne (y * 2 powi (52 - ilog2 y))"
      by (rule rne_mono)
    then have "(of_int (rne (x * 2 powi (52 - ilog2 y))) :: rat) * 2 powi (ilog2 y - 52)
                 \<le> of_int (rne (y * 2 powi (52 - ilog2 y))) * 2 powi (ilog2 y - 52)"
      by (intro mult_right_mono) simp_all
    with True y same show ?thesis
      by (simp add: round_double_def Let_def)
  next
    case False
    with le have "ilog2 x + 1 \<le> ilog2 y" by simp
    then have "(2::rat) powi (ilog2 x + 1) \<le> 2 powi (ilog2 y)"
      by (intro power_int_increasing) simp_all
    moreover have "round_double x \<le> 2 powi (ilog2 x + 1)"
      using round_double_bounds [OF True] by simp
    moreover have "2 powi (ilog2 y) \<le> round_double y"
      using round_double_bounds [OF y] by simp
    ultimately show ?thesis by linarith
  qed
qed

lemma percent_mono:
  assumes "0 < n" "tx \<le> tx'"
  shows "projr (percent tx n) \<le> projr (percent tx' n)"
proof -
  have "(of_nat tx :: rat) / of_nat n \<le> of_nat tx' / of_nat n"
    using assms by (simp add: divide_right_mono)
  then have "round_double (of_nat tx / of_nat n) * 100 \<le> round_double (of_nat tx' / of_nat n) * 100"
    by (simp add: round_double_mono)
  then have "round_double (round_double (of_nat tx / of_nat n) * 100)
               \<le> round_double (round_double (of_nat tx' / of_nat n) * 100)"
    by (rule round_double_mono)
  then show ?thesis
    using assms(1) by (simp add: percent_def floor_mono)
qed

section \<open>Properties of a single file transfer\<close>

lemma progress_values_append [simp]:
  "progress_values (xs @ ys) = progress_values xs @ progress_values ys"
  by (induction xs rule: progress_values.induct) simp_all

lemma progress_values_map_Progress [simp]: "progress_values (map Progress vs) = vs"
  by (induction vs) simp_all

lemma put_cb_get_cb: "put_cb n = get_cb (Some n)"
  by (simp add: put_cb_def get_cb_def fun_eq_iff)

lemma get_cb_result:
  "get_cb rs tx w =
     (if cancel w then Inl (RuntimeError ''Cancelled'') else Inr (),
      w\<lparr>signals := signals w @ map Progress (tick_values rs tx)\<rparr>)"
  by (cases rs)
     (auto simp: get_cb_def tick_values_def and_then_def ret_def raise_def check_cancel_def
       emit_percent_def emit_def percent_def)

lemma run_ticks_get_cb:
  "\<exists>j \<le> length ts.
     snd (run_ticks (get_cb rs) ts w) =
       w\<lparr>cancel := cancel w \<or> (\<exists>tk \<in> set (take j ts). snd tk),
         signals := signals w @ map Progress (concat (map (tick_values rs) (take j (map fst ts))))\<rparr>
     \<and> (fst (run_ticks (get_cb rs) ts w) = Inr () \<longrightarrow> j = length ts)
     \<and> (fst (run_ticks (get_cb rs) ts w) = Inr () \<or>
          fst (run_ticks (get_cb rs) ts w) = Inl (RuntimeError ''Cancelled''))
     \<and> (fst (run_ticks (get_cb rs) ts w) = Inr ()
          \<longleftrightarrow> ts = [] \<or> (\<not> cancel w \<and> (\<forall>tk \<in> set ts. \<not> snd tk)))"
proof (induction ts arbitrary: w)
  case Nil
  show ?case by simp
next
  case (Cons t ts)
  obtain tx req where t: "t = (tx, req)" by (cases t)
  show ?case
  proof (cases "cancel w \<or> req")
    case True
    then have "snd (run_ticks (get_cb rs) (t # ts) w) =
        w\<lparr>cancel := True, signals := signals w @ map Progress (tick_values rs tx)\<rparr>"
      and "fst (run_ticks (get_cb rs) (t # ts) w) = Inl (RuntimeError ''Cancelled'')"
      by (auto simp: t get_cb_result)
    with True show ?thesis
      by (intro exI [of _ 1]) (auto simp: t)
  next
    case False
    let ?w1 = "w\<lparr>signals := signals w @ map Progress (tick_values rs tx)\<rparr>"
    from False have wc: "w\<lparr>cancel := False\<rparr> = w"
      by (cases w) simp
    from False have step: "run_ticks (get_cb rs) (t # ts) w = run_ticks (get_cb rs) ts ?w1"
      by (simp add: t get_cb_result wc)
    from Cons.IH [of ?w1] obtain j where j: "j \<le> length ts"
      "snd (run_ticks (get_cb rs) ts ?w1) =
         ?w1\<lparr>cancel := cancel ?w1 \<or> (\<exists>tk \<in> set (take j ts). snd tk),
             signals := signals ?w1 @ map Progress (concat (map (tick_values rs) (take j (map fst ts))))\<rparr>"
      "fst (run_ticks (get_cb rs) ts ?w1) = Inr () \<longrightarrow> j = length ts"
      "fst (run_ticks (get_cb rs) ts ?w1) = Inr () \<or>
          fst (run_ticks (get_cb rs) ts ?w1) = Inl (RuntimeError ''Cancelled'')"
      "fst (run_ticks (get_cb rs) ts ?w1) = Inr ()
          \<longleftrightarrow> ts = [] \<or> (\<not> cancel ?w1 \<and> (\<forall>tk \<in> set ts. \<not> snd tk))"
      by blast
    show ?thesis
      unfolding step
      using j False by (intro exI [of _ "Suc j"]) (auto simp: t)
  qed
qed

lemma library_transfer_get_cb:
  "\<exists>j \<le> length (ticks t).
     signals (snd (library_transfer t (get_cb rs) w)) =
       signals w @ map Progress (concat (map (tick_values rs) (take j (map fst (ticks t)))))
     \<and> remote_ops (snd (library_transfer t (get_cb rs) w)) = remote_ops w
     \<and> fst (library_transfer t (get_cb rs) w) \<noteq> Inl ZeroDivisionError"
proof -
  from run_ticks_get_cb [of "ticks t" rs w] obtain j where j: "j \<le> length (ticks t)"
    "snd (run_ticks (get_cb rs) (ticks t) w) =
       w\<lparr>cancel := cancel w \<or> (\<exists>tk \<in> set (take j (ticks t)). snd tk),
         signals := signals w
            @ map Progress (concat (map (tick_values rs) (take j (map fst (ticks t)))))\<rparr>"
    "fst (run_ticks (get_cb rs) (ticks t) w) = Inr () \<or>
       fst (run_ticks (get_cb rs) (ticks t) w) = Inl (RuntimeError ''Cancelled'')"
    by blast
  obtain r w1 where rt: "run_ticks (get_cb rs) (ticks t) w = (r, w1)"
    by (cases "run_ticks (get_cb rs) (ticks t) w")
  with j have "signals w1 = signals w
        @ map Progress (concat (map (tick_values rs) (take j (map fst (ticks t)))))"
    "remote_ops w1 = remote_ops w" "r = Inr () \<or> r = Inl (RuntimeError ''Cancelled'')"
    by auto
  with rt j(1) show ?thesis
    by (intro exI [of _ j])
       (auto simp: library_transfer_def Let_def split: option.splits)
qed

lemma progress_values_emitted:
  "signals w' = signals w @ new \<Longrightarrow> progress_values (emitted w w') = progress_values new"
  by (simp add: emitted_def)

lemma get_file_signals:
  "\<exists>j \<le> length (ticks (transfer_of env k)).
     progress_values (emitted w (snd (get_file sess env k rp lp rs0 w))) =
       0 # concat (map (tick_values (lookup_remote_size sess env rp rs0))
                    (take j (map fst (ticks (transfer_of env k)))))
         @ (if fst (get_file sess env k rp lp rs0 w) = Inr () then [100] else [])
     \<and> fst (get_file sess env k rp lp rs0 w) \<noteq> Inl ZeroDivisionError"
proof (cases "sftp sess")
  case None
  then have "signals (snd (get_file sess env k rp lp rs0 w)) =
      signals w @ [Status (''Downloading: '' @ basename rp), Progress 0]"
    and "isl (fst (get_file sess env k rp lp rs0 w))"
    and "fst (get_file sess env k rp lp rs0 w) \<noteq> Inl ZeroDivisionError"
    by (simp_all add: get_file_def Let_def and_then_def emit_def sftp_get_def raise_def)
  then show ?thesis
    by (intro exI [of _ 0]) (auto simp: progress_values_emitted)
next
  case (Some h)
  let ?t = "transfer_of env k"
  let ?rs = "lookup_remote_size sess env rp rs0"
  let ?w0 = "w\<lparr>signals := signals w @ [Status (''Downloading: '' @ basename rp), Progress 0]\<rparr>"
  from library_transfer_get_cb [of ?t ?rs ?w0] obtain j where j: "j \<le> length (ticks ?t)"
    "signals (snd (library_transfer ?t (get_cb ?rs) ?w0)) =
       signals ?w0 @ map Progress (concat (map (tick_values ?rs) (take j (map fst (ticks ?t)))))"
    "fst (library_transfer ?t (get_cb ?rs) ?w0) \<noteq> Inl ZeroDivisionError"
    by blast
  obtain r w1 where lt: "library_transfer ?t (get_cb ?rs) ?w0 = (r, w1)"
    by (cases "library_transfer ?t (get_cb ?rs) ?w0")
  with j have w1: "signals w1 = signals w @ [Status (''Downloading: '' @ basename rp), Progress 0]
        @ map Progress (concat (map (tick_values ?rs) (take j (map fst (ticks ?t)))))"
    "r \<noteq> Inl ZeroDivisionError"
    by auto
  show ?thesis
  proof (cases r)
    case (Inl e)
    with lt Some w1 have
      "signals (snd (get_file sess env k rp lp rs0 w)) = signals w
         @ [Status (''Downloading: '' @ basename rp), Progress 0]
         @ map Progress (concat (map (tick_values ?rs) (take j (map fst (ticks ?t)))))"
      "fst (get_file sess env k rp lp rs0 w) = Inl e"
      by (simp_all add: get_file_def Let_def and_then_def emit_def sftp_get_def)
    with j(1) w1(2) Inl show ?thesis
      by (intro exI [of _ j]) (auto simp: progress_values_emitted)
  next
    case (Inr u)
    with lt Some w1 have
      "signals (snd (get_file sess env k rp lp rs0 w)) = signals w
         @ [Status (''Downloading: '' @ basename rp), Progress 0]
         @ map Progress (concat (map (tick_values ?rs) (take j (map fst (ticks ?t)))))
         @ [Progress 100]"
      "fst (get_file sess env k rp lp rs0 w) = Inr ()"
      by (simp_all add: get_file_def Let_def and_then_def emit_def sftp_get_def)
    with j(1) show ?thesis
      by (intro exI [of _ j]) (auto simp: progress_values_emitted)
  qed
qed

lemma put_file_signals:
  assumes "getsize env lp = Inr n"
  shows "\<exists>j \<le> length (ticks (transfer_of env k)).
     progress_values (emitted w (snd (put_file sess env k lp rp w))) =
       0 # concat (map (tick_values (Some n)) (take j (map fst (ticks (transfer_of env k)))))
         @ (if fst (put_file sess env k lp rp w) = Inr () then [100] else [])
     \<and> fst (put_file sess env k lp rp w) \<noteq> Inl ZeroDivisionError"
proof (cases "sftp sess")
  case None
  with assms have "signals (snd (put_file sess env k lp rp w)) =
      signals w @ [Status (''Uploading: '' @ basename lp), Progress 0]"
    and "isl (fst (put_file sess env k lp rp w))"
    and "fst (put_file sess env k lp rp w) \<noteq> Inl ZeroDivisionError"
    by (simp_all add: put_file_def Let_def and_then_def emit_def sftp_put_def raise_def)
  then show ?thesis
    by (intro exI [of _ 0]) (auto simp: progress_values_emitted)
next
  case (Some h)
  let ?t = "transfer_of env k"
  let ?rs = "Some n"
  let ?w0 = "w\<lparr>signals := signals w @ [Status (''Uploading: '' @ basename lp), Progress 0]\<rparr>"
  from library_transfer_get_cb [of ?t ?rs ?w0] obtain j where j: "j \<le> length (ticks ?t)"
    "signals (snd (library_transfer ?t (get_cb ?rs) ?w0)) =
       signals ?w0 @ map Progress (concat (map (tick_values ?rs) (take j (map fst (ticks ?t)))))"
    "fst (library_transfer ?t (get_cb ?rs) ?w0) \<noteq> Inl ZeroDivisionError"
    by blast
  obtain r w1 where lt: "library_transfer ?t (get_cb ?rs) ?w0 = (r, w1)"
    by (cases "library_transfer ?t (get_cb ?rs) ?w0")
  with j have w1: "signals w1 = signals w @ [Status (''Uploading: '' @ basename lp), Progress 0]
        @ map Progress (concat (map (tick_values ?rs) (take j (map fst (ticks ?t)))))"
    "r \<noteq> Inl ZeroDivisionError"
    by auto
  show ?thesis
  proof (cases r)
    case (Inl e)
    with lt Some w1 assms have
      "signals (snd (put_file sess env k lp rp w)) = signals w
         @ [Status (''Uploading: '' @ basename lp), Progress 0]
         @ map Progress (concat (map (tick_values ?rs) (take j (map fst (ticks ?t)))))"
      "fst (put_file sess env k lp rp w) = Inl e"
      by (simp_all add: put_file_def put_cb_get_cb and_then_def emit_def sftp_put_def)
    with j(1) w1(2) Inl show ?thesis
      by (intro exI [of _ j]) (auto simp: progress_values_emitted)
  next
    case (Inr u)
    with lt Some w1 assms have
      "signals (snd (put_file sess env k lp rp w)) = signals w
         @ [Status (''Uploading: '' @ basename lp), Progress 0]
         @ map Progress (concat (map (tick_values ?rs) (take j (map fst (ticks ?t)))))
         @ [Progress 100]"
      "fst (put_file sess env k lp rp w) = Inr ()"
      by (simp_all add: put_file_def put_cb_get_cb and_then_def emit_def sftp_put_def)
    with j(1) show ?thesis
      by (intro exI [of _ j]) (auto simp: progress_values_emitted)
  qed
qed

lemma put_file_no_size:
  assumes "getsize env lp = Inl m"
  shows "progress_values (emitted w (snd (put_file sess env k lp rp w))) = []"
    and "fst (put_file sess env k lp rp w) = Inl (LibError m)"
  using assms by (simp_all add: put_file_def raise_def emitted_def)

lemma tick_values_bounded: "v \<in> set (tick_values rs tx) \<Longrightarrow> 0 \<le> v \<and> v \<le> 100"
  by (auto simp: tick_values_def split: option.splits if_splits)

lemma sorted_tick_values:
  assumes "sorted txs"
  shows "sorted (concat (map (tick_values rs) txs))"
proof (cases "\<exists>n. rs = Some n \<and> 0 < n")
  case False
  then have e: "tick_values rs = (\<lambda>tx. [])"
    by (auto simp: tick_values_def fun_eq_iff split: option.splits)
  have "concat (map (\<lambda>tx. []) txs) = ([] :: int list)"
    by (induction txs) simp_all
  then show ?thesis unfolding e by (simp only: sorted_wrt.simps)
next
  case True
  then obtain n where n: "rs = Some n" "0 < n" by blast
  then have "concat (map (tick_values rs) txs)
      = map (\<lambda>tx. max 0 (min 100 (projr (percent tx n)))) txs"
    by (induction txs) (auto simp: tick_values_def)
  moreover have "sorted (map (\<lambda>tx. max 0 (min 100 (projr (percent tx n)))) txs)"
    using assms
  proof (induction txs)
    case Nil
    show ?case by simp
  next
    case (Cons a txs)
    then have "\<forall>b \<in> set txs. projr (percent a n) \<le> projr (percent b n)"
      using percent_mono [OF n(2)] by auto
    with Cons show ?case by (auto simp: max_def min_def)
  qed
  ultimately show ?thesis by simp
qed

lemma sorted_progress_shape:
  assumes "sorted vs" "\<forall>v \<in> set vs. 0 \<le> v \<and> v \<le> (100::int)"
  shows "sorted (0 # vs @ (if b then [100] else []))"
    and "\<forall>v \<in> set (0 # vs @ (if b then [100] else [])). 0 \<le> v \<and> v \<le> 100"
  using assms by (auto simp: sorted_append)

lemma progress_shape:
  assumes "sorted vs" "\<forall>v \<in> set vs. 0 \<le> v \<and> v \<le> (100::int)"
    and "xs = 0 # vs @ (if b then [100] else [])"
  shows "sorted xs \<and> (\<forall>v \<in> set xs. 0 \<le> v \<and> v \<le> 100) \<and> take 1 xs = [0]
         \<and> (b \<longrightarrow> xs \<noteq> [] \<and> last xs = 100)"
  using assms by (auto simp: sorted_append)

lemma ilog2_unique:
  assumes "2 powi e \<le> x" "x < 2 powi (e + 1)"
  shows "ilog2 x = e"
proof -
  have "(0::rat) < 2 powi e" by simp
  with assms(1) have x: "0 < x" by linarith
  from ilog2_bounds [OF x] have b: "2 powi (ilog2 x) \<le> x" "x < 2 powi (ilog2 x + 1)"
    by simp_all
  have "\<not> ilog2 x + 1 \<le> e"
  proof
    assume "ilog2 x + 1 \<le> e"
    then have "(2::rat) powi (ilog2 x + 1) \<le> 2 powi e"
      by (intro power_int_increasing) simp_all
    with b(2) assms(1) show False by linarith
  qed
  moreover have "\<not> e + 1 \<le> ilog2 x"
  proof
    assume "e + 1 \<le> ilog2 x"
    then have "(2::rat) powi (e + 1) \<le> 2 powi (ilog2 x)"
      by (intro power_int_increasing) simp_all
    with b(1) assms(2) show False by linarith
  qed
  ultimately show ?thesis by linarith
qed

lemma round_double_exact:
  assumes "2 powi e \<le> x" "x < 2 powi (e + 1)" "x * 2 powi (52 - e) = of_int m"
  shows "round_double x = x"
proof -
  have "(0::rat) < 2 powi e" by simp
  with assms(1) have x: "0 < x" by linarith
  have e: "ilog2 x = e" by (rule ilog2_unique [OF assms(1,2)])
  have "round_double x = of_int m * 2 powi (e - 52)"
    using x by (simp add: round_double_def e assms(3))
  also have "\<dots> = x * (2 powi (52 - e) * 2 powi (e - 52))"
    by (simp add: assms(3) [symmetric])
  also have "2 powi (52 - e) * (2::rat) powi (e - 52) = 1"
    using power_int_add [of "2::rat" "52 - e" "e - 52"] by simp
  finally show ?thesis by simp
qed

lemma percent_examples: "percent 512 1024 = Inr 50" "percent 1024 1024 = Inr 100"
proof -
  have half: "round_double (1 / 2) = 1 / 2"
    by (rule round_double_exact [where e = "-1" and m = "2 ^ 52"]) simp_all
  have fifty: "round_double 50 = 50"
    by (rule round_double_exact [where e = 5 and m = "50 * 2 ^ 47"]) simp_all
  have one: "round_double 1 = 1"
    by (rule round_double_exact [where e = 0 and m = "2 ^ 52"]) simp_all
  have hundred: "round_double 100 = 100"
    by (rule round_double_exact [where e = 6 and m = "100 * 2 ^ 46"]) simp_all
  show "percent 512 1024 = Inr 50"
    by (simp add: percent_def half fifty)
  show "percent 1024 1024 = Inr 100"
    by (simp add: percent_def one hundred)
qed

text \<open>
  C3. Within one file transfer, upload or download, when the library reports
  non-decreasing byte counts to the callback, the progress values emitted are
  non-decreasing and lie in \<open>[0, 100]\<close>; the first is \<open>0\<close> (for an upload, once the size
  of the local file has been read; before that nothing is emitted), and when the
  transfer returns the last is \<open>100\<close>.
\<close>

theorem progress_values_monotone:
  assumes "sorted (map fst (ticks (transfer_of env k)))"
  shows "sorted (progress_values (emitted w (snd (put_file sess env k lp rp w))))
    \<and> (\<forall>v \<in> set (progress_values (emitted w (snd (put_file sess env k lp rp w)))).
          0 \<le> v \<and> v \<le> 100)
    \<and> ((\<exists>n. getsize env lp = Inr n)
          \<longrightarrow> take 1 (progress_values (emitted w (snd (put_file sess env k lp rp w)))) = [0])
    \<and> (fst (put_file sess env k lp rp w) = Inr ()
          \<longrightarrow> progress_values (emitted w (snd (put_file sess env k lp rp w))) \<noteq> []
              \<and> last (progress_values (emitted w (snd (put_file sess env k lp rp w)))) = 100)
    \<and> sorted (progress_values (emitted w (snd (get_file sess env k rp lp rs w))))
    \<and> (\<forall>v \<in> set (progress_values (emitted w (snd (get_file sess env k rp lp rs w)))).
          0 \<le> v \<and> v \<le> 100)
    \<and> take 1 (progress_values (emitted w (snd (get_file sess env k rp lp rs w)))) = [0]
    \<and> (fst (get_file sess env k rp lp rs w) = Inr ()
          \<longrightarrow> last (progress_values (emitted w (snd (get_file sess env k rp lp rs w)))) = 100)"
proof -
  let ?txs = "map fst (ticks (transfer_of env k))"
  define pv where "pv = progress_values (emitted w (snd (put_file sess env k lp rp w)))"
  define pok where "pok \<longleftrightarrow> fst (put_file sess env k lp rp w) = Inr ()"
  define gv where "gv = progress_values (emitted w (snd (get_file sess env k rp lp rs w)))"
  define gok where "gok \<longleftrightarrow> fst (get_file sess env k rp lp rs w) = Inr ()"
  have mid: "sorted (concat (map (tick_values r) (take j ?txs)))"
    "\<forall>v \<in> set (concat (map (tick_values r) (take j ?txs))). 0 \<le> v \<and> v \<le> 100"
    for r j
    using sorted_tick_values [OF sorted_wrt_take [OF assms], of r j] tick_values_bounded
    by auto
  have put: "sorted pv \<and> (\<forall>v \<in> set pv. 0 \<le> v \<and> v \<le> 100)
      \<and> ((\<exists>n. getsize env lp = Inr n) \<longrightarrow> take 1 pv = [0])
      \<and> (pok \<longrightarrow> pv \<noteq> [] \<and> last pv = 100)"
  proof (cases "getsize env lp")
    case (Inl m)
    from put_file_no_size [OF this, where w = w and sess = sess and k = k and rp = rp] have "pv = []" "\<not> pok"
      by (simp_all add: pv_def pok_def)
    with Inl show ?thesis by simp
  next
    case (Inr n)
    from put_file_signals [OF this, of k w sess rp] obtain j where
      "pv = 0 # concat (map (tick_values (Some n)) (take j ?txs)) @ (if pok then [100] else [])"
      unfolding pv_def pok_def by blast
    from progress_shape [OF mid [of "Some n" j] this] show ?thesis by blast
  qed
  have get: "sorted gv \<and> (\<forall>v \<in> set gv. 0 \<le> v \<and> v \<le> 100) \<and> take 1 gv = [0]
      \<and> (gok \<longrightarrow> gv \<noteq> [] \<and> last gv = 100)"
  proof -
    from get_file_signals [of env k w sess rp lp rs] obtain j where
      "gv = 0 # concat (map (tick_values (lookup_remote_size sess env rp rs)) (take j ?txs))
              @ (if gok then [100] else [])"
      unfolding gv_def gok_def by blast
    from progress_shape [OF mid [of "lookup_remote_size sess env rp rs" j] this]
    show ?thesis .
  qed
  from put get have "sorted pv \<and> (\<forall>v \<in> set pv. 0 \<le> v \<and> v \<le> 100)
      \<and> ((\<exists>n. getsize env lp = Inr n) \<longrightarrow> take 1 pv = [0])
      \<and> (pok \<longrightarrow> pv \<noteq> [] \<and> last pv = 100)
      \<and> sorted gv \<and> (\<forall>v \<in> set gv. 0 \<le> v \<and> v \<le> 100) \<and> take 1 gv = [0]
      \<and> (gok \<longrightarrow> last gv = 100)"
    by blast
  then show ?thesis
    unfolding pv_def pok_def gv_def gok_def .
qed

theorem progress_values_monotone_witness:
  "sorted (map fst (ticks (transfer_of world_demo 0)))
   \<and> progress_values (emitted worker_idle
        (snd (put_file session_open world_demo 0 ''/home/u/a.txt'' ''/srv/a.txt'' worker_idle)))
       = [0, 50, 100, 100]
   \<and> sorted (progress_values (emitted worker_idle
        (snd (put_file session_open world_demo 0 ''/home/u/a.txt'' ''/srv/a.txt'' worker_idle))))"
proof -
  have h: "sorted (map fst (ticks (transfer_of world_demo 0)))"
    by (simp add: world_demo_def transfer_plain_def)
  have e: "progress_values (emitted worker_idle
        (snd (put_file session_open world_demo 0 ''/home/u/a.txt'' ''/srv/a.txt'' worker_idle)))
       = [0, 50, 100, 100]"
    by (simp add: put_file_def world_demo_def transfer_plain_def session_open_def
        worker_idle_def and_then_def emit_def sftp_put_def library_transfer_def put_cb_def
        emit_percent_def percent_examples check_cancel_def ret_def emitted_def)
  from progress_values_monotone [OF h, of worker_idle session_open "''/home/u/a.txt''"
      "''/srv/a.txt''"]
  have "sorted (progress_values (emitted worker_idle
        (snd (put_file session_open world_demo 0 ''/home/u/a.txt'' ''/srv/a.txt'' worker_idle))))"
    by (rule conjunct1)
  with h e show ?thesis by blast
qed

text \<open>
  C9. Uploading a local file of size 0 never divides by zero. The division itself would
  raise on a total of 0, but the callback computes the percentage only under
  \<open>total > 0\<close>: the upload never ends in \<open>ZeroDivisionError\<close>, whatever the library
  reports to the callback, and the progress values it emits are \<open>0\<close> at the start and,
  when the transfer returns, \<open>100\<close> at the end, with nothing in between.
\<close>

theorem zero_byte_upload_no_division:
  assumes "getsize env lp = Inr 0"
  shows "percent tx 0 = Inl ZeroDivisionError
    \<and> fst (put_file sess env k lp rp w) \<noteq> Inl ZeroDivisionError
    \<and> progress_values (emitted w (snd (put_file sess env k lp rp w)))
        = (if fst (put_file sess env k lp rp w) = Inr () then [0, 100] else [0])"
proof -
  have none: "concat (map (tick_values (Some 0)) txs) = []" for txs
    by (induction txs) (simp_all add: tick_values_def)
  from put_file_signals [OF assms, of k w sess rp] show ?thesis
    by (auto simp: none percent_def)
qed

theorem zero_byte_upload_no_division_witness:
  "getsize world_empty_file ''/home/u/empty'' = Inr 0
   \<and> ticks (transfer_of world_empty_file 0) = [(0, False), (7, False)]
   \<and> percent 7 0 = Inl ZeroDivisionError
   \<and> fst (put_file session_open world_empty_file 0 ''/home/u/empty'' ''/srv/empty'' worker_idle)
       = Inr ()
   \<and> progress_values (emitted worker_idle
        (snd (put_file session_open world_empty_file 0 ''/home/u/empty'' ''/srv/empty''
                worker_idle)))
       = [0, 100]"
proof -
  have h: "getsize world_empty_file ''/home/u/empty'' = Inr 0"
    by (simp add: world_empty_file_def)
  have t: "ticks (transfer_of world_empty_file 0) = [(0, False), (7, False)]"
    by (simp add: world_empty_file_def)
  have r: "fst (put_file session_open world_empty_file 0 ''/home/u/empty'' ''/srv/empty''
             worker_idle) = Inr ()"
    by (simp add: put_file_def world_empty_file_def session_open_def worker_idle_def
        and_then_def emit_def sftp_put_def library_transfer_def put_cb_def check_cancel_def
        ret_def)
  note z = zero_byte_upload_no_division
    [OF h, of 7 session_open 0 "''/srv/empty''" worker_idle]
  from z have d: "percent 7 0 = Inl ZeroDivisionError"
    by (rule conjunct1)
  from z [THEN conjunct2, THEN conjunct2] r
  have "progress_values (emitted worker_idle
        (snd (put_file session_open world_empty_file 0 ''/home/u/empty'' ''/srv/empty''
                worker_idle))) = [0, 100]"
    by simp
  with h t d r show ?thesis by blast
qed

section \<open>Properties of a cancelled upload\<close>

lemma run_ticks_flag:
  "cancel (snd (run_ticks (get_cb rs) ts w)) =
     (if fst (run_ticks (get_cb rs) ts w) = Inr () then cancel w else True)"
proof (induction ts arbitrary: w)
  case Nil
  show ?case by simp
next
  case (Cons t ts)
  obtain tx req where t: "t = (tx, req)" by (cases t)
  show ?case
  proof (cases "cancel w \<or> req")
    case True
    then show ?thesis by (auto simp: t get_cb_result)
  next
    case False
    then have wc: "w\<lparr>cancel := False\<rparr> = w" by (cases w) simp
    let ?w1 = "w\<lparr>signals := signals w @ map Progress (tick_values rs tx)\<rparr>"
    from False have step: "run_ticks (get_cb rs) (t # ts) w = run_ticks (get_cb rs) ts ?w1"
      by (simp add: t get_cb_result wc)
    from Cons.IH [of ?w1] show ?thesis unfolding step by simp
  qed
qed

lemma run_ticks_outcome:
  "\<exists>new. (\<forall>s \<in> set new. \<not> is_finished s)
     \<and> run_ticks (get_cb rs) ts w =
         (if ts = [] \<or> (\<not> cancel w \<and> (\<forall>tk \<in> set ts. \<not> snd tk))
          then (Inr (), w\<lparr>signals := signals w @ new\<rparr>)
          else (Inl (RuntimeError ''Cancelled''), w\<lparr>cancel := True, signals := signals w @ new\<rparr>))"
proof -
  from run_ticks_get_cb [of ts rs w] obtain j where
    s: "snd (run_ticks (get_cb rs) ts w) =
       w\<lparr>cancel := cancel w \<or> (\<exists>tk \<in> set (take j ts). snd tk),
         signals := signals w @ map Progress (concat (map (tick_values rs) (take j (map fst ts))))\<rparr>"
    and c: "fst (run_ticks (get_cb rs) ts w) = Inr () \<or>
          fst (run_ticks (get_cb rs) ts w) = Inl (RuntimeError ''Cancelled'')"
    and i: "fst (run_ticks (get_cb rs) ts w) = Inr ()
          \<longleftrightarrow> ts = [] \<or> (\<not> cancel w \<and> (\<forall>tk \<in> set ts. \<not> snd tk))"
    by blast
  define new where "new = map Progress (concat (map (tick_values rs) (take j (map fst ts))))"
  have nf: "\<forall>s \<in> set new. \<not> is_finished s"
    by (auto simp: new_def)
  obtain r w1 where rt: "run_ticks (get_cb rs) ts w = (r, w1)"
    by (cases "run_ticks (get_cb rs) ts w")
  from run_ticks_flag [of rs ts w] rt
  have fl: "cancel w1 = (if r = Inr () then cancel w else True)" by simp
  from s rt have w1: "w1 = w\<lparr>cancel := cancel w1, signals := signals w @ new\<rparr>"
    by (simp add: new_def)
  have wc: "w\<lparr>cancel := cancel w, signals := signals w @ new\<rparr> = w\<lparr>signals := signals w @ new\<rparr>"
    by (cases w) simp
  show ?thesis
  proof (cases "r = Inr ()")
    case True
    with fl w1 wc have "w1 = w\<lparr>signals := signals w @ new\<rparr>" by simp
    with True rt i nf show ?thesis by (intro exI [of _ new]) auto
  next
    case False
    with c rt have r: "r = Inl (RuntimeError ''Cancelled'')" by simp
    from False fl w1 have "w1 = w\<lparr>cancel := True, signals := signals w @ new\<rparr>" by simp
    with r rt i nf show ?thesis by (intro exI [of _ new]) auto
  qed
qed

lemma put_file_outcome:
  assumes "sftp sess = Some h" "getsize env lp = Inr n" "\<not> cancel w"
  shows "\<exists>new. (\<forall>s \<in> set new. \<not> is_finished s)
     \<and> put_file sess env k lp rp w =
         (if \<exists>tk \<in> set (ticks (transfer_of env k)). snd tk
          then (Inl (RuntimeError ''Cancelled''),
                w\<lparr>cancel := True, signals := signals w @ new,
                  remote_ops := remote_ops w @ [Put lp rp False]\<rparr>)
          else case failure (transfer_of env k) of
                 Some m \<Rightarrow>
                   (Inl (LibError m),
                    w\<lparr>cancel := cancel_late (transfer_of env k), signals := signals w @ new,
                      remote_ops := remote_ops w @ [Put lp rp False]\<rparr>)
               | None \<Rightarrow>
                   (Inr (),
                    w\<lparr>cancel := cancel_late (transfer_of env k), signals := signals w @ new,
                      remote_ops := remote_ops w @ [Put lp rp True]\<rparr>))"
proof -
  let ?t = "transfer_of env k"
  let ?hd = "[Status (''Uploading: '' @ basename lp), Progress 0]"
  let ?w0 = "w\<lparr>signals := signals w @ ?hd\<rparr>"
  from run_ticks_outcome [of "Some n" "ticks ?t" ?w0] obtain mid where
    nf: "\<forall>s \<in> set mid. \<not> is_finished s"
    and rt: "run_ticks (get_cb (Some n)) (ticks ?t) ?w0 =
         (if ticks ?t = [] \<or> (\<not> cancel ?w0 \<and> (\<forall>tk \<in> set (ticks ?t). \<not> snd tk))
          then (Inr (), ?w0\<lparr>signals := signals ?w0 @ mid\<rparr>)
          else (Inl (RuntimeError ''Cancelled''),
                ?w0\<lparr>cancel := True, signals := signals ?w0 @ mid\<rparr>))"
    by blast
  have wc: "w\<lparr>cancel := False\<rparr> = w" using assms(3) by (cases w) simp
  show ?thesis
  proof (cases "\<exists>tk \<in> set (ticks ?t). snd tk")
    case True
    then have ne: "ticks ?t \<noteq> []" by auto
    have "put_file sess env k lp rp w =
        (Inl (RuntimeError ''Cancelled''),
         w\<lparr>cancel := True, signals := signals w @ (?hd @ mid),
           remote_ops := remote_ops w @ [Put lp rp False]\<rparr>)"
      using True ne assms rt
      by (auto simp: put_file_def put_cb_get_cb and_then_def emit_def sftp_put_def
          library_transfer_def)
    moreover have "\<forall>s \<in> set (?hd @ mid). \<not> is_finished s" using nf by auto
    ultimately show ?thesis using True by (intro exI [of _ "?hd @ mid"]) simp
  next
    case False
    then have ok: "ticks ?t = [] \<or> (\<not> cancel ?w0 \<and> (\<forall>tk \<in> set (ticks ?t). \<not> snd tk))"
      using assms(3) by auto
    show ?thesis
    proof (cases "failure ?t")
      case None
      have "put_file sess env k lp rp w =
          (Inr (),
           w\<lparr>cancel := cancel_late ?t, signals := signals w @ (?hd @ mid @ [Progress 100]),
             remote_ops := remote_ops w @ [Put lp rp True]\<rparr>)"
        using ok None assms rt
        by (auto simp: put_file_def put_cb_get_cb and_then_def emit_def sftp_put_def
            library_transfer_def Let_def)
      moreover have "\<forall>s \<in> set (?hd @ mid @ [Progress 100]). \<not> is_finished s"
        using nf by auto
      ultimately show ?thesis
        using False None by (intro exI [of _ "?hd @ mid @ [Progress 100]"]) simp
    next
      case (Some m)
      have "put_file sess env k lp rp w =
          (Inl (LibError m),
           w\<lparr>cancel := cancel_late ?t, signals := signals w @ (?hd @ mid),
             remote_ops := remote_ops w @ [Put lp rp False]\<rparr>)"
        using ok Some assms rt
        by (auto simp: put_file_def put_cb_get_cb and_then_def emit_def sftp_put_def
            library_transfer_def Let_def)
      moreover have "\<forall>s \<in> set (?hd @ mid). \<not> is_finished s" using nf by auto
      ultimately show ?thesis
        using False Some by (intro exI [of _ "?hd @ mid"]) simp
    qed
  qed
qed

lemma upload_each_step:
  assumes "sftp sess = Some h" "getsize env lp = Inr n" "\<not> cancel w"
    and "\<not> (\<exists>tk \<in> set (ticks (transfer_of env (i - 1))). snd tk)"
    and "failure (transfer_of env (i - 1)) = None"
  shows "\<exists>new. (\<forall>s \<in> set new. \<not> is_finished s)
     \<and> upload_each sess env dir m i (lp # rest) w =
         upload_each sess env dir m (Suc i) rest
           (w\<lparr>cancel := cancel_late (transfer_of env (i - 1)), signals := signals w @ new,
              remote_ops := remote_ops w @ [Put lp (join_remote dir (basename lp)) True]\<rparr>)"
proof -
  let ?rp = "join_remote dir (basename lp)"
  let ?st = "Status (''['' @ show_nat i @ ''/'' @ show_nat m @ ''] Uploading file -> '' @ ?rp)"
  let ?w0 = "w\<lparr>signals := signals w @ [?st]\<rparr>"
  have c0: "\<not> cancel ?w0" using assms(3) by simp
  from put_file_outcome [OF assms(1,2) c0, of "i - 1" ?rp] assms(4,5) obtain mid where
    nf: "\<forall>s \<in> set mid. \<not> is_finished s"
    and pf: "put_file sess env (i - 1) lp ?rp ?w0 =
         (Inr (),
          ?w0\<lparr>cancel := cancel_late (transfer_of env (i - 1)), signals := signals ?w0 @ mid,
             remote_ops := remote_ops ?w0 @ [Put lp ?rp True]\<rparr>)"
    by auto
  have "upload_each sess env dir m i (lp # rest) w =
         upload_each sess env dir m (Suc i) rest
           (w\<lparr>cancel := cancel_late (transfer_of env (i - 1)),
              signals := signals w @ (?st # mid),
              remote_ops := remote_ops w @ [Put lp ?rp True]\<rparr>)"
    using assms(3) pf by (simp add: Let_def and_then_def emit_def)
  moreover have "\<forall>s \<in> set (?st # mid). \<not> is_finished s" using nf by simp
  ultimately show ?thesis by blast
qed

lemma upload_each_clean_prefix:
  assumes "sftp sess = Some h" "0 < i"
  shows "\<not> cancel w \<Longrightarrow>
     \<forall>j < length good. (\<exists>n. getsize env (good ! j) = Inr n) \<and> clean (transfer_of env (i - 1 + j)) \<Longrightarrow>
     \<exists>new. (\<forall>s \<in> set new. \<not> is_finished s)
       \<and> upload_each sess env dir m i (good @ rest) w =
           upload_each sess env dir m (i + length good) rest
             (w\<lparr>signals := signals w @ new,
                remote_ops := remote_ops w
                  @ map (\<lambda>lp. Put lp (join_remote dir (basename lp)) True) good\<rparr>)"
  using assms(2)
proof (induction good arbitrary: i w)
  case Nil
  have "w\<lparr>signals := signals w @ [], remote_ops := remote_ops w @ []\<rparr> = w"
    by (cases w) simp
  then show ?case by (intro exI [of _ "[]"]) simp
next
  case (Cons lp good)
  from Cons.prems(2) have hd: "\<exists>n. getsize env lp = Inr n" "clean (transfer_of env (i - 1))"
    by force+
  then obtain n where n: "getsize env lp = Inr n" by blast
  from hd(2) have cl: "\<not> (\<exists>tk \<in> set (ticks (transfer_of env (i - 1))). snd tk)"
    "failure (transfer_of env (i - 1)) = None" "\<not> cancel_late (transfer_of env (i - 1))"
    by (auto simp: clean_def)
  let ?rp = "join_remote dir (basename lp)"
  from upload_each_step [OF assms(1) n Cons.prems(1) cl(1,2), of dir m "good @ rest"] cl(3)
  obtain new1 where nf1: "\<forall>s \<in> set new1. \<not> is_finished s"
    and st: "upload_each sess env dir m i (lp # good @ rest) w =
         upload_each sess env dir m (Suc i) (good @ rest)
           (w\<lparr>cancel := False, signals := signals w @ new1,
              remote_ops := remote_ops w @ [Put lp ?rp True]\<rparr>)"
    by auto
  let ?w1 = "w\<lparr>cancel := False, signals := signals w @ new1,
                remote_ops := remote_ops w @ [Put lp ?rp True]\<rparr>"
  have c1: "\<not> cancel ?w1" by simp
  have rest: "\<forall>j < length good. (\<exists>n. getsize env (good ! j) = Inr n)
                \<and> clean (transfer_of env (Suc i - 1 + j))"
  proof (intro allI impI)
    fix j assume "j < length good"
    then have "Suc j < length (lp # good)" by simp
    with Cons.prems(2) have "(\<exists>n. getsize env ((lp # good) ! Suc j) = Inr n)
        \<and> clean (transfer_of env (i - 1 + Suc j))"
      by blast
    moreover have "i - 1 + Suc j = Suc i - 1 + j" using Cons.prems(3) by simp
    ultimately show "(\<exists>n. getsize env (good ! j) = Inr n)
        \<and> clean (transfer_of env (Suc i - 1 + j))"
      by simp
  qed
  from Cons.IH [OF c1 rest] obtain new2 where nf2: "\<forall>s \<in> set new2. \<not> is_finished s"
    and ih: "upload_each sess env dir m (Suc i) (good @ rest) ?w1 =
           upload_each sess env dir m (Suc i + length good) rest
             (?w1\<lparr>signals := signals ?w1 @ new2,
                remote_ops := remote_ops ?w1
                  @ map (\<lambda>lp. Put lp (join_remote dir (basename lp)) True) good\<rparr>)"
    by auto
  have weq: "?w1\<lparr>signals := signals ?w1 @ new2,
                remote_ops := remote_ops ?w1
                  @ map (\<lambda>lp. Put lp (join_remote dir (basename lp)) True) good\<rparr>
      = w\<lparr>signals := signals w @ (new1 @ new2),
           remote_ops := remote_ops w
             @ map (\<lambda>lp. Put lp (join_remote dir (basename lp)) True) (lp # good)\<rparr>"
    using Cons.prems(1) by (cases w) simp
  have "upload_each sess env dir m i ((lp # good) @ rest) w =
           upload_each sess env dir m (i + length (lp # good)) rest
             (w\<lparr>signals := signals w @ (new1 @ new2),
                remote_ops := remote_ops w
                  @ map (\<lambda>lp. Put lp (join_remote dir (basename lp)) True) (lp # good)\<rparr>)"
    using st ih unfolding weq by simp
  moreover have "\<forall>s \<in> set (new1 @ new2). \<not> is_finished s" using nf1 nf2 by auto
  ultimately show ?case by blast
qed

lemma upload_each_cancelled_step:
  assumes "sftp sess = Some h" "getsize env lp = Inr n" "\<not> cancel w"
    and "\<exists>tk \<in> set (ticks (transfer_of env (i - 1))). snd tk"
  shows "\<exists>new. (\<forall>s \<in> set new. \<not> is_finished s)
     \<and> upload_each sess env dir m i (lp # rest) w =
         (Inl (RuntimeError ''Cancelled''),
          w\<lparr>cancel := True, signals := signals w @ new,
            remote_ops := remote_ops w @ [Put lp (join_remote dir (basename lp)) False]\<rparr>)"
proof -
  let ?rp = "join_remote dir (basename lp)"
  let ?st = "Status (''['' @ show_nat i @ ''/'' @ show_nat m @ ''] Uploading file -> '' @ ?rp)"
  let ?w0 = "w\<lparr>signals := signals w @ [?st]\<rparr>"
  have c0: "\<not> cancel ?w0" using assms(3) by simp
  from put_file_outcome [OF assms(1,2) c0, of "i - 1" ?rp] assms(4) obtain mid where
    nf: "\<forall>s \<in> set mid. \<not> is_finished s"
    and pf: "put_file sess env (i - 1) lp ?rp ?w0 =
         (Inl (RuntimeError ''Cancelled''),
          ?w0\<lparr>cancel := True, signals := signals ?w0 @ mid,
             remote_ops := remote_ops ?w0 @ [Put lp ?rp False]\<rparr>)"
    by auto
  have "upload_each sess env dir m i (lp # rest) w =
         (Inl (RuntimeError ''Cancelled''),
          w\<lparr>cancel := True, signals := signals w @ (?st # mid),
            remote_ops := remote_ops w @ [Put lp ?rp False]\<rparr>)"
    using assms(3) pf by (simp add: Let_def and_then_def emit_def)
  moreover have "\<forall>s \<in> set (?st # mid). \<not> is_finished s" using nf by simp
  ultimately show ?thesis by blast
qed

declare upload_each.simps [simp del]

lemma upload_each_cancelled:
  assumes sftp: "sftp sess = Some h"
    and k: "k < length files"
    and idle: "\<not> cancel w"
    and before: "\<forall>j < k. (\<exists>n. getsize env (files ! j) = Inr n) \<and> clean (transfer_of env j)"
    and size: "getsize env (files ! k) = Inr n"
    and seen: "(\<exists>tk \<in> set (ticks (transfer_of env k)). snd tk)
               \<or> ((\<forall>tk \<in> set (ticks (transfer_of env k)). \<not> snd tk)
                   \<and> failure (transfer_of env k) = None
                   \<and> cancel_late (transfer_of env k) \<and> Suc k < length files)"
  shows "\<exists>new. (\<forall>s \<in> set new. \<not> is_finished s)
     \<and> upload_each sess env dir m 1 files w =
         (Inl (RuntimeError ''Cancelled''),
          w\<lparr>cancel := True, signals := signals w @ new,
            remote_ops := remote_ops w
              @ map (\<lambda>lp. Put lp (join_remote dir (basename lp)) True) (take k files)
              @ [Put (files ! k) (join_remote dir (basename (files ! k)))
                   (\<not> (\<exists>tk \<in> set (ticks (transfer_of env k)). snd tk))]\<rparr>)"
proof -
  let ?good = "take k files"
  let ?f = "files ! k"
  let ?post = "drop (Suc k) files"
  let ?put = "\<lambda>lp. Put lp (join_remote dir (basename lp)) True"
  have split: "files = ?good @ ?f # ?post"
    using k by (simp add: id_take_nth_drop)
  have lg: "length ?good = k" using k by simp
  have pre: "\<forall>j < length ?good. (\<exists>n. getsize env (?good ! j) = Inr n)
               \<and> clean (transfer_of env (1 - 1 + j))"
    using before lg by simp
  from upload_each_clean_prefix [OF sftp _ idle pre, of dir m "?f # ?post"]
  obtain new1 where nf1: "\<forall>s \<in> set new1. \<not> is_finished s"
    and p: "upload_each sess env dir m 1 (?good @ ?f # ?post) w =
           upload_each sess env dir m (1 + length ?good) (?f # ?post)
             (w\<lparr>signals := signals w @ new1, remote_ops := remote_ops w @ map ?put ?good\<rparr>)"
    by auto
  let ?w1 = "w\<lparr>signals := signals w @ new1, remote_ops := remote_ops w @ map ?put ?good\<rparr>"
  have c1: "\<not> cancel ?w1" using idle by simp
  have idx: "1 + length ?good - 1 = k" using lg by simp
  from p split lg have p': "upload_each sess env dir m 1 files w =
      upload_each sess env dir m (Suc k) (?f # ?post) ?w1"
    by simp
  show ?thesis
  proof (cases "\<exists>tk \<in> set (ticks (transfer_of env k)). snd tk")
    case True
    then have t: "\<exists>tk \<in> set (ticks (transfer_of env (Suc k - 1))). snd tk" by simp
    from upload_each_cancelled_step [OF sftp size c1 t, of dir m ?post]
    obtain new2 where nf2: "\<forall>s \<in> set new2. \<not> is_finished s"
      and q: "upload_each sess env dir m (Suc k) (?f # ?post) ?w1 =
         (Inl (RuntimeError ''Cancelled''),
          ?w1\<lparr>cancel := True, signals := signals ?w1 @ new2,
            remote_ops := remote_ops ?w1 @ [Put ?f (join_remote dir (basename ?f)) False]\<rparr>)"
      by blast
    have "upload_each sess env dir m 1 files w =
         (Inl (RuntimeError ''Cancelled''),
          w\<lparr>cancel := True, signals := signals w @ (new1 @ new2),
            remote_ops := remote_ops w @ map ?put ?good
              @ [Put ?f (join_remote dir (basename ?f)) False]\<rparr>)"
      using p' q by simp
    moreover have "\<forall>s \<in> set (new1 @ new2). \<not> is_finished s" using nf1 nf2 by auto
    ultimately show ?thesis using True by (intro exI [of _ "new1 @ new2"]) simp
  next
    case False
    with seen have late: "failure (transfer_of env (Suc k - 1)) = None"
      "cancel_late (transfer_of env k)" "Suc k < length files"
      by auto
    from False have nt: "\<not> (\<exists>tk \<in> set (ticks (transfer_of env (Suc k - 1))). snd tk)"
      by simp
    from upload_each_step [OF sftp size c1 nt late(1), of dir m ?post] late(2)
    obtain new2 where nf2: "\<forall>s \<in> set new2. \<not> is_finished s"
      and q: "upload_each sess env dir m (Suc k) (?f # ?post) ?w1 =
         upload_each sess env dir m (Suc (Suc k)) ?post
           (?w1\<lparr>cancel := True, signals := signals ?w1 @ new2,
              remote_ops := remote_ops ?w1 @ [Put ?f (join_remote dir (basename ?f)) True]\<rparr>)"
      by auto
    from late(3) obtain g rest where post: "?post = g # rest"
      by (cases ?post) auto
    have "upload_each sess env dir m 1 files w =
         (Inl (RuntimeError ''Cancelled''),
          w\<lparr>cancel := True, signals := signals w @ (new1 @ new2),
            remote_ops := remote_ops w @ map ?put ?good
              @ [Put ?f (join_remote dir (basename ?f)) True]\<rparr>)"
      using p' q unfolding post by (simp add: raise_def upload_each.simps)
    moreover have "\<forall>s \<in> set (new1 @ new2). \<not> is_finished s" using nf1 nf2 by auto
    ultimately show ?thesis using False by (intro exI [of _ "new1 @ new2"]) simp
  qed
qed

lemma remote_after_append:
  "remote_after shell fs (xs @ ys) = remote_after shell (remote_after shell fs xs) ys"
  by (simp add: remote_after_def)

lemma remote_after_other_puts:
  assumes "rp \<notin> set (map dest lps)"
  shows "remote_after shell fs (map (\<lambda>lp. Put lp (dest lp) (ok lp)) lps) rp = fs rp"
  using assms
proof (induction lps arbitrary: fs)
  case Nil
  show ?case by (simp add: remote_after_def)
next
  case (Cons lp lps)
  then have "remote_after shell (fs(dest lp \<mapsto> (if ok lp then Whole lp else Partial lp)))
               (map (\<lambda>lp. Put lp (dest lp) (ok lp)) lps) rp
             = (fs(dest lp \<mapsto> (if ok lp then Whole lp else Partial lp))) rp"
    by simp
  with Cons.prems show ?case by (simp add: remote_after_def)
qed

lemma remote_after_put_kept:
  assumes "j < length lps" "dest (lps ! j) \<notin> set (map dest (drop (Suc j) lps))"
    and "ok (lps ! j)"
  shows "remote_after shell fs (pre @ map (\<lambda>lp. Put lp (dest lp) (ok lp)) lps) (dest (lps ! j))
           = Some (Whole (lps ! j))"
proof -
  let ?put = "\<lambda>lp. Put lp (dest lp) (ok lp)"
  have split: "lps = take j lps @ lps ! j # drop (Suc j) lps"
    using assms(1) by (simp add: id_take_nth_drop)
  have "pre @ map ?put lps
          = (pre @ map ?put (take j lps)) @ [?put (lps ! j)] @ map ?put (drop (Suc j) lps)"
    by (subst split) simp
  then have "remote_after shell fs (pre @ map ?put lps) (dest (lps ! j))
      = remote_after shell
          (remote_after shell (remote_after shell fs (pre @ map ?put (take j lps)))
             [?put (lps ! j)])
          (map ?put (drop (Suc j) lps)) (dest (lps ! j))"
    by (simp only: remote_after_append)
  also have "\<dots> = remote_after shell (remote_after shell fs (pre @ map ?put (take j lps)))
             [?put (lps ! j)] (dest (lps ! j))"
    by (rule remote_after_other_puts [OF assms(2)])
  also have "\<dots> = Some (Whole (lps ! j))"
    using assms(3) by (simp add: remote_after_def)
  finally show ?thesis .
qed

lemma upload_each_all:
  assumes sftp: "sftp sess = Some h"
    and k: "Suc k = length files"
    and idle: "\<not> cancel w"
    and before: "\<forall>j < k. (\<exists>n. getsize env (files ! j) = Inr n) \<and> clean (transfer_of env j)"
    and size: "getsize env (files ! k) = Inr n"
    and quiet_last: "\<forall>tk \<in> set (ticks (transfer_of env k)). \<not> snd tk"
    and returns: "failure (transfer_of env k) = None"
  shows "\<exists>new. (\<forall>s \<in> set new. \<not> is_finished s)
     \<and> upload_each sess env dir m 1 files w =
         (Inr (),
          w\<lparr>cancel := cancel_late (transfer_of env k), signals := signals w @ new,
            remote_ops := remote_ops w
              @ map (\<lambda>lp. Put lp (join_remote dir (basename lp)) True) files\<rparr>)"
proof -
  let ?good = "take k files"
  let ?f = "files ! k"
  let ?put = "\<lambda>lp. Put lp (join_remote dir (basename lp)) True"
  have split: "files = ?good @ [?f]"
    using k by (metis lessI take_Suc_conv_app_nth take_all order_refl)
  have lg: "length ?good = k" using k by simp
  have pre: "\<forall>j < length ?good. (\<exists>n. getsize env (?good ! j) = Inr n)
               \<and> clean (transfer_of env (1 - 1 + j))"
    using before lg by simp
  from upload_each_clean_prefix [OF sftp _ idle pre, of dir m "[?f]"]
  obtain new1 where nf1: "\<forall>s \<in> set new1. \<not> is_finished s"
    and p: "upload_each sess env dir m 1 (?good @ [?f]) w =
           upload_each sess env dir m (1 + length ?good) [?f]
             (w\<lparr>signals := signals w @ new1, remote_ops := remote_ops w @ map ?put ?good\<rparr>)"
    by auto
  let ?w1 = "w\<lparr>signals := signals w @ new1, remote_ops := remote_ops w @ map ?put ?good\<rparr>"
  have c1: "\<not> cancel ?w1" using idle by simp
  have p': "upload_each sess env dir m 1 files w = upload_each sess env dir m (Suc k) [?f] ?w1"
    using p lg by (subst split) simp
  have nt: "\<not> (\<exists>tk \<in> set (ticks (transfer_of env (Suc k - 1))). snd tk)"
    using quiet_last by simp
  have fl: "failure (transfer_of env (Suc k - 1)) = None" using returns by simp
  from upload_each_step [OF sftp size c1 nt fl, of dir m "[]"]
  obtain new2 where nf2: "\<forall>s \<in> set new2. \<not> is_finished s"
    and q: "upload_each sess env dir m (Suc k) [?f] ?w1 =
         upload_each sess env dir m (Suc (Suc k)) []
           (?w1\<lparr>cancel := cancel_late (transfer_of env k), signals := signals ?w1 @ new2,
              remote_ops := remote_ops ?w1 @ [?put ?f]\<rparr>)"
    by auto
  have m: "map ?put ?good @ [?put ?f] = map ?put files"
    by (subst (3) split) simp
  have "upload_each sess env dir m 1 files w =
         (Inr (),
          w\<lparr>cancel := cancel_late (transfer_of env k), signals := signals w @ (new1 @ new2),
            remote_ops := remote_ops w @ map ?put files\<rparr>)"
    using p' q by (simp add: upload_each.simps m [symmetric])
  moreover have "\<forall>s \<in> set (new1 @ new2). \<not> is_finished s" using nf1 nf2 by auto
  ultimately show ?thesis by blast
qed

lemma upload_files_cancelled_result:
  assumes conn: "is_connected sess"
    and mk: "exec_result env (''mkdir -p '' @ quoted (normalize_remote remote_dir)) 60 = Inr r"
    and files: "parse_paths local_paths_csv = files"
    and k: "k < length files"
    and idle: "\<not> cancel w"
    and before: "\<forall>j < k. (\<exists>n. getsize env (files ! j) = Inr n) \<and> clean (transfer_of env j)"
    and size: "getsize env (files ! k) = Inr n"
    and seen: "(\<exists>tk \<in> set (ticks (transfer_of env k)). snd tk)
               \<or> ((\<forall>tk \<in> set (ticks (transfer_of env k)). \<not> snd tk)
                   \<and> failure (transfer_of env k) = None
                   \<and> cancel_late (transfer_of env k) \<and> Suc k < length files)"
  shows "\<exists>pre. (\<forall>s \<in> set pre. \<not> is_finished s)
     \<and> upload_files sess env local_paths_csv remote_dir w =
        w\<lparr>cancel := True,
          signals := signals w @ pre @ [Finished False ''Upload failed: Cancelled''],
          remote_ops := remote_ops w
            @ [Exec (''mkdir -p '' @ quoted (normalize_remote remote_dir))]
            @ map (\<lambda>lp. Put lp (upload_dest remote_dir lp) True) (take k files)
            @ [Put (files ! k) (upload_dest remote_dir (files ! k))
                 (\<not> (\<exists>tk \<in> set (ticks (transfer_of env k)). snd tk))]\<rparr>"
proof -
  let ?dir = "normalize_remote remote_dir"
  let ?cmd = "''mkdir -p '' @ quoted ?dir"
  let ?st = "Status (''Ensuring remote dir: '' @ ?dir)"
  let ?w0 = "w\<lparr>signals := signals w @ [?st], remote_ops := remote_ops w @ [Exec ?cmd]\<rparr>"
  from conn obtain h where sftp: "sftp sess = Some h"
    by (auto simp: is_connected_def)
  from k have ne: "files \<noteq> []" by auto
  have c0: "\<not> cancel ?w0" using idle by simp
  from upload_each_cancelled [OF sftp k c0 before size seen, of ?dir "length files"]
  obtain new where nf: "\<forall>s \<in> set new. \<not> is_finished s"
    and loop: "upload_each sess env ?dir (length files) 1 files ?w0 =
         (Inl (RuntimeError ''Cancelled''),
          ?w0\<lparr>cancel := True, signals := signals ?w0 @ new,
            remote_ops := remote_ops ?w0
              @ map (\<lambda>lp. Put lp (join_remote ?dir (basename lp)) True) (take k files)
              @ [Put (files ! k) (join_remote ?dir (basename (files ! k)))
                   (\<not> (\<exists>tk \<in> set (ticks (transfer_of env k)). snd tk))]\<rparr>)"
    by blast
  have body: "upload_files_try sess env local_paths_csv remote_dir w =
      and_then (upload_each sess env ?dir (length files) 1 files)
        (\<lambda>_. emit (Finished True ''Upload completed.'')) ?w0"
    using conn mk files ne
    by (simp add: upload_files_try_def Let_def and_then_def emit_def exec_def ret_def)
  have body': "upload_files_try sess env local_paths_csv remote_dir w =
      upload_each sess env ?dir (length files) 1 files ?w0"
    unfolding body and_then_def loop by simp
  have res: "upload_files sess env local_paths_csv remote_dir w =
      w\<lparr>cancel := True,
        signals := signals w @ (?st # new) @ [Finished False ''Upload failed: Cancelled''],
        remote_ops := remote_ops w @ [Exec ?cmd]
          @ map (\<lambda>lp. Put lp (upload_dest remote_dir lp) True) (take k files)
          @ [Put (files ! k) (upload_dest remote_dir (files ! k))
               (\<not> (\<exists>tk \<in> set (ticks (transfer_of env k)). snd tk))]\<rparr>"
    unfolding upload_files_def body' loop
    by (simp add: emit_def upload_dest_def)
  moreover have "\<forall>s \<in> set (?st # new). \<not> is_finished s" using nf by simp
  ultimately show ?thesis by blast
qed

lemma upload_files_late_result:
  assumes conn: "is_connected sess"
    and mk: "exec_result env (''mkdir -p '' @ quoted (normalize_remote remote_dir)) 60 = Inr r"
    and files: "parse_paths local_paths_csv = files"
    and k: "Suc k = length files"
    and idle: "\<not> cancel w"
    and before: "\<forall>j < k. (\<exists>n. getsize env (files ! j) = Inr n) \<and> clean (transfer_of env j)"
    and size: "getsize env (files ! k) = Inr n"
    and quiet_last: "\<forall>tk \<in> set (ticks (transfer_of env k)). \<not> snd tk"
    and returns: "failure (transfer_of env k) = None"
  shows "\<exists>pre. (\<forall>s \<in> set pre. \<not> is_finished s)
     \<and> upload_files sess env local_paths_csv remote_dir w =
        w\<lparr>cancel := cancel_late (transfer_of env k),
          signals := signals w @ pre @ [Finished True ''Upload completed.''],
          remote_ops := remote_ops w
            @ [Exec (''mkdir -p '' @ quoted (normalize_remote remote_dir))]
            @ map (\<lambda>lp. Put lp (upload_dest remote_dir lp) True) files\<rparr>"
proof -
  let ?dir = "normalize_remote remote_dir"
  let ?cmd = "''mkdir -p '' @ quoted ?dir"
  let ?st = "Status (''Ensuring remote dir: '' @ ?dir)"
  let ?w0 = "w\<lparr>signals := signals w @ [?st], remote_ops := remote_ops w @ [Exec ?cmd]\<rparr>"
  from conn obtain h where sftp: "sftp sess = Some h"
    by (auto simp: is_connected_def)
  from k have ne: "files \<noteq> []" by auto
  have c0: "\<not> cancel ?w0" using idle by simp
  from upload_each_all [OF sftp k c0 before size quiet_last returns, of ?dir "length files"]
  obtain new where nf: "\<forall>s \<in> set new. \<not> is_finished s"
    and loop: "upload_each sess env ?dir (length files) 1 files ?w0 =
         (Inr (),
          ?w0\<lparr>cancel := cancel_late (transfer_of env k), signals := signals ?w0 @ new,
            remote_ops := remote_ops ?w0
              @ map (\<lambda>lp. Put lp (join_remote ?dir (basename lp)) True) files\<rparr>)"
    by blast
  have body: "upload_files_try sess env local_paths_csv remote_dir w =
      and_then (upload_each sess env ?dir (length files) 1 files)
        (\<lambda>_. emit (Finished True ''Upload completed.'')) ?w0"
    using conn mk files ne
    by (simp add: upload_files_try_def Let_def and_then_def emit_def exec_def ret_def)
  have res: "upload_files sess env local_paths_csv remote_dir w =
      w\<lparr>cancel := cancel_late (transfer_of env k),
        signals := signals w @ (?st # new) @ [Finished True ''Upload completed.''],
        remote_ops := remote_ops w @ [Exec ?cmd]
          @ map (\<lambda>lp. Put lp (upload_dest remote_dir lp) True) files\<rparr>"
    unfolding upload_files_def body and_then_def loop
    by (simp add: emit_def upload_dest_def)
  moreover have "\<forall>s \<in> set (?st # new). \<not> is_finished s" using nf by simp
  ultimately show ?thesis by blast
qed

lemma earlier_files_kept:
  assumes "j < k" "k < length files"
    and "dest (files ! j) \<notin> set (map dest (drop (Suc j) (take (Suc k) files)))"
  shows "remote_after shell fs
           (pre @ map (\<lambda>lp. Put lp (dest lp) True) (take k files) @ [Put (files ! k) (dest (files ! k)) b])
           (dest (files ! j))
         = Some (Whole (files ! j))"
proof -
  let ?lps = "take (Suc k) files"
  let ?ok = "\<lambda>i. i < k \<or> b"
  have tk: "?lps = take k files @ [files ! k]"
    using assms(2) by (simp add: take_Suc_conv_app_nth)
  have j: "j < length (take k files)" using assms(1,2) by simp
  have nj: "take k files ! j = files ! j" using assms(1) by simp
  have d: "drop (Suc j) ?lps = drop (Suc j) (take k files) @ [files ! k]"
    using assms(1,2) by (simp add: tk)
  from assms(3) have a: "dest (files ! j) \<notin> set (map dest (drop (Suc j) (take k files)))"
    and b: "dest (files ! j) \<noteq> dest (files ! k)"
    unfolding d by auto
  have "remote_after shell fs
           (pre @ map (\<lambda>lp. Put lp (dest lp) True) (take k files) @ [Put (files ! k) (dest (files ! k)) b])
           (dest (files ! j))
      = remote_after shell
          (remote_after shell fs (pre @ map (\<lambda>lp. Put lp (dest lp) True) (take k files)))
          [Put (files ! k) (dest (files ! k)) b] (dest (files ! j))"
    using remote_after_append [of shell fs "pre @ map (\<lambda>lp. Put lp (dest lp) True) (take k files)"
        "[Put (files ! k) (dest (files ! k)) b]"]
    by simp
  also have "\<dots> = remote_after shell fs (pre @ map (\<lambda>lp. Put lp (dest lp) True) (take k files))
                     (dest (files ! j))"
    using b by (simp add: remote_after_def)
  also have "\<dots> = Some (Whole (files ! j))"
    using remote_after_put_kept [of j "take k files" dest "\<lambda>lp. True" shell fs pre] j a nj
    by simp
  finally show ?thesis .
qed

text \<open>
  C2 (as amended). In an upload of the files \<open>files\<close> on a connected session, with the
  flag unset at the start and the first \<open>k\<close> transfers clean (\<open>k\<close> counted from 0):

  If cancellation is requested during the transfer of file \<open>k\<close> so that a checkpoint sees
  it (before one of the progress callbacks of that file, or, the transfer returning, after
  its last callback when another file follows), the job emits exactly one terminal signal,
  \<open>finished(False, "Upload failed: Cancelled")\<close>, as its last signal. Its remote
  operations are the \<open>mkdir\<close>, the completed \<open>put\<close> of each of the first \<open>k\<close> files, in
  order, and the \<open>put\<close> of file \<open>k\<close> (cut short in the first case, completed in the
  second): no later file is attempted and nothing is removed. Each of the first \<open>k\<close>
  files is still whole at its destination, whatever the \<open>mkdir\<close> did and whatever was
  there before, provided no file attempted after it, up to file \<open>k\<close>, has the same
  destination path.

  If instead file \<open>k\<close> is the last one, no callback of it sees a request and its transfer
  returns, the job completes every \<open>put\<close> and reports \<open>finished(True, "Upload
  completed.")\<close>, also when cancellation was requested after the last callback; the flag
  is then left set.
\<close>

theorem upload_cancelled_during_kth_file:
  assumes conn: "is_connected sess"
    and mk: "exec_result env (''mkdir -p '' @ quoted (normalize_remote remote_dir)) 60 = Inr r"
    and files: "parse_paths local_paths_csv = files"
    and k: "k < length files"
    and idle: "\<not> cancel w"
    and before: "\<forall>j < k. (\<exists>n. getsize env (files ! j) = Inr n) \<and> clean (transfer_of env j)"
    and size: "getsize env (files ! k) = Inr n"
  shows "((\<exists>tk \<in> set (ticks (transfer_of env k)). snd tk)
          \<or> ((\<forall>tk \<in> set (ticks (transfer_of env k)). \<not> snd tk)
              \<and> failure (transfer_of env k) = None
              \<and> cancel_late (transfer_of env k) \<and> Suc k < length files)
        \<longrightarrow>
          (\<exists>pre. signals (upload_files sess env local_paths_csv remote_dir w)
                  = signals w @ pre @ [Finished False ''Upload failed: Cancelled'']
               \<and> (\<forall>s \<in> set pre. \<not> is_finished s))
          \<and> remote_ops (upload_files sess env local_paths_csv remote_dir w)
              = remote_ops w
                @ [Exec (''mkdir -p '' @ quoted (normalize_remote remote_dir))]
                @ map (\<lambda>lp. Put lp (upload_dest remote_dir lp) True) (take k files)
                @ [Put (files ! k) (upload_dest remote_dir (files ! k))
                     (\<not> (\<exists>tk \<in> set (ticks (transfer_of env k)). snd tk))]
          \<and> cancel (upload_files sess env local_paths_csv remote_dir w)
          \<and> (\<forall>j < k.
                upload_dest remote_dir (files ! j)
                  \<notin> set (map (upload_dest remote_dir) (drop (Suc j) (take (Suc k) files)))
                \<longrightarrow> remote_after shell fs
                      (remote_ops (upload_files sess env local_paths_csv remote_dir w))
                      (upload_dest remote_dir (files ! j))
                    = Some (Whole (files ! j))))
     \<and> ((\<forall>tk \<in> set (ticks (transfer_of env k)). \<not> snd tk)
          \<and> failure (transfer_of env k) = None \<and> Suc k = length files
        \<longrightarrow>
          (\<exists>pre. signals (upload_files sess env local_paths_csv remote_dir w)
                  = signals w @ pre @ [Finished True ''Upload completed.'']
               \<and> (\<forall>s \<in> set pre. \<not> is_finished s))
          \<and> remote_ops (upload_files sess env local_paths_csv remote_dir w)
              = remote_ops w
                @ [Exec (''mkdir -p '' @ quoted (normalize_remote remote_dir))]
                @ map (\<lambda>lp. Put lp (upload_dest remote_dir lp) True) files
          \<and> cancel (upload_files sess env local_paths_csv remote_dir w)
              = cancel_late (transfer_of env k))"
proof (intro conjI impI)
  assume seen: "(\<exists>tk \<in> set (ticks (transfer_of env k)). snd tk)
          \<or> ((\<forall>tk \<in> set (ticks (transfer_of env k)). \<not> snd tk)
              \<and> failure (transfer_of env k) = None
              \<and> cancel_late (transfer_of env k) \<and> Suc k < length files)"
  from upload_files_cancelled_result [OF conn mk files k idle before size seen]
  obtain pre where nf: "\<forall>s \<in> set pre. \<not> is_finished s"
    and res: "upload_files sess env local_paths_csv remote_dir w =
        w\<lparr>cancel := True,
          signals := signals w @ pre @ [Finished False ''Upload failed: Cancelled''],
          remote_ops := remote_ops w
            @ [Exec (''mkdir -p '' @ quoted (normalize_remote remote_dir))]
            @ map (\<lambda>lp. Put lp (upload_dest remote_dir lp) True) (take k files)
            @ [Put (files ! k) (upload_dest remote_dir (files ! k))
                 (\<not> (\<exists>tk \<in> set (ticks (transfer_of env k)). snd tk))]\<rparr>"
    by blast
  show "\<exists>pre. signals (upload_files sess env local_paths_csv remote_dir w)
                  = signals w @ pre @ [Finished False ''Upload failed: Cancelled'']
               \<and> (\<forall>s \<in> set pre. \<not> is_finished s)"
    unfolding res using nf by (intro exI [of _ pre]) simp
  show "remote_ops (upload_files sess env local_paths_csv remote_dir w)
              = remote_ops w
                @ [Exec (''mkdir -p '' @ quoted (normalize_remote remote_dir))]
                @ map (\<lambda>lp. Put lp (upload_dest remote_dir lp) True) (take k files)
                @ [Put (files ! k) (upload_dest remote_dir (files ! k))
                     (\<not> (\<exists>tk \<in> set (ticks (transfer_of env k)). snd tk))]"
    unfolding res by simp
  show "cancel (upload_files sess env local_paths_csv remote_dir w)"
    unfolding res by simp
  show "\<forall>j < k.
          upload_dest remote_dir (files ! j)
            \<notin> set (map (upload_dest remote_dir) (drop (Suc j) (take (Suc k) files)))
          \<longrightarrow> remote_after shell fs
                (remote_ops (upload_files sess env local_paths_csv remote_dir w))
                (upload_dest remote_dir (files ! j))
              = Some (Whole (files ! j))"
  proof (intro allI impI)
    fix j assume j: "j < k"
      and d: "upload_dest remote_dir (files ! j)
            \<notin> set (map (upload_dest remote_dir) (drop (Suc j) (take (Suc k) files)))"
    from earlier_files_kept [OF j k d, of shell fs
        "remote_ops w @ [Exec (''mkdir -p '' @ quoted (normalize_remote remote_dir))]"
        "\<not> (\<exists>tk \<in> set (ticks (transfer_of env k)). snd tk)"]
    show "remote_after shell fs
                (remote_ops (upload_files sess env local_paths_csv remote_dir w))
                (upload_dest remote_dir (files ! j))
              = Some (Whole (files ! j))"
      unfolding res by simp
  qed
next
  assume late: "(\<forall>tk \<in> set (ticks (transfer_of env k)). \<not> snd tk)
          \<and> failure (transfer_of env k) = None \<and> Suc k = length files"
  then have l: "Suc k = length files" "\<forall>tk \<in> set (ticks (transfer_of env k)). \<not> snd tk"
    "failure (transfer_of env k) = None"
    by simp_all
  from upload_files_late_result [OF conn mk files l(1) idle before size l(2,3)]
  obtain pre where nf: "\<forall>s \<in> set pre. \<not> is_finished s"
    and res: "upload_files sess env local_paths_csv remote_dir w =
        w\<lparr>cancel := cancel_late (transfer_of env k),
          signals := signals w @ pre @ [Finished True ''Upload completed.''],
          remote_ops := remote_ops w
            @ [Exec (''mkdir -p '' @ quoted (normalize_remote remote_dir))]
            @ map (\<lambda>lp. Put lp (upload_dest remote_dir lp) True) files\<rparr>"
    by blast
  show "\<exists>pre. signals (upload_files sess env local_paths_csv remote_dir w)
                  = signals w @ pre @ [Finished True ''Upload completed.'']
               \<and> (\<forall>s \<in> set pre. \<not> is_finished s)"
    unfolding res using nf by (intro exI [of _ pre]) simp
  show "remote_ops (upload_files sess env local_paths_csv remote_dir w)
              = remote_ops w
                @ [Exec (''mkdir -p '' @ quoted (normalize_remote remote_dir))]
                @ map (\<lambda>lp. Put lp (upload_dest remote_dir lp) True) files"
    unfolding res by simp
  show "cancel (upload_files sess env local_paths_csv remote_dir w)
              = cancel_late (transfer_of env k)"
    unfolding res by simp
qed

lemma parse_three:
  "parse_paths ''/u/a|/u/b|/u/c'' = [''/u/a'', ''/u/b'', ''/u/c'']"
  by (simp add: parse_paths_def strip_def lstrip_def rstrip_def isspace_def)

lemma parse_same_name:
  "parse_paths ''/x/a|/y/a|/z/c'' = [''/x/a'', ''/y/a'', ''/z/c'']"
  by (simp add: parse_paths_def strip_def lstrip_def rstrip_def isspace_def)

lemma parse_one: "parse_paths ''/u/a'' = [''/u/a'']"
  by (simp add: parse_paths_def strip_def lstrip_def rstrip_def isspace_def)

lemma normalize_srv: "normalize_remote ''/srv'' = ''/srv''"
  by (simp add: normalize_remote_def collapse.simps bslash_def)

lemma upload_dest_examples:
  "upload_dest ''/srv'' ''/u/a'' = ''/srv/a''" "upload_dest ''/srv'' ''/u/b'' = ''/srv/b''"
  "upload_dest ''/srv'' ''/x/a'' = ''/srv/a''" "upload_dest ''/srv'' ''/y/a'' = ''/srv/a''"
  by (simp_all add: upload_dest_def join_remote_def normalize_srv basename_def endswith_def
      Let_def suffix_to_prefix)

lemma world_cancel_second_facts:
  "exec_result world_cancel_second cmd t = Inr (0, [], [])"
  "getsize world_cancel_second lp = Inr 1024"
  "clean (transfer_of world_cancel_second 0)"
  "\<exists>tk \<in> set (ticks (transfer_of world_cancel_second 1)). snd tk"
  by (simp_all add: world_cancel_second_def world_demo_def clean_def transfer_plain_def
      transfer_cancelled_def)

lemma world_cancel_late_facts:
  "exec_result world_cancel_late cmd t = Inr (0, [], [])"
  "getsize world_cancel_late lp = Inr 1024"
  "\<forall>tk \<in> set (ticks (transfer_of world_cancel_late 0)). \<not> snd tk"
  "failure (transfer_of world_cancel_late 0) = None"
  "cancel_late (transfer_of world_cancel_late 0)"
  by (simp_all add: world_cancel_late_def world_demo_def)

lemma session_open_connected: "is_connected session_open"
  by (simp add: session_open_def is_connected_def)

lemma worker_idle_fields:
  "\<not> cancel worker_idle" "signals worker_idle = []" "remote_ops worker_idle = []"
  by (simp_all add: worker_idle_def)

theorem upload_cancelled_during_kth_file_witness:
  "is_connected session_open \<and> \<not> cancel worker_idle
   \<and> clean (transfer_of world_cancel_second 0)
   \<and> snd (ticks (transfer_of world_cancel_second 1) ! 1)
   \<and> remote_ops (upload_files session_open world_cancel_second ''/u/a|/u/b|/u/c'' ''/srv''
        worker_idle)
       = [Exec (''mkdir -p '' @ quoted ''/srv''),
          Put ''/u/a'' ''/srv/a'' True, Put ''/u/b'' ''/srv/b'' False]
   \<and> (\<exists>pre. signals (upload_files session_open world_cancel_second ''/u/a|/u/b|/u/c'' ''/srv''
                 worker_idle)
               = pre @ [Finished False ''Upload failed: Cancelled''])
   \<and> remote_after (\<lambda>cmd fs. fs) Map.empty
        (remote_ops (upload_files session_open world_cancel_second ''/u/a|/u/b|/u/c'' ''/srv''
           worker_idle)) ''/srv/a''
       = Some (Whole ''/u/a'')
   \<and> cancel_late (transfer_of world_cancel_late 0)
   \<and> (\<exists>pre. signals (upload_files session_open world_cancel_late ''/u/a'' ''/srv'' worker_idle)
               = pre @ [Finished True ''Upload completed.''])"
proof -
  have rq: "snd (ticks (transfer_of world_cancel_second 1) ! 1)"
    by (simp add: world_cancel_second_def transfer_cancelled_def)
  have k: "1 < length [''/u/a'', ''/u/b'', ''/u/c'']" by simp
  have before: "\<forall>j < 1. (\<exists>n. getsize world_cancel_second ([''/u/a'', ''/u/b'', ''/u/c''] ! j) = Inr n)
                  \<and> clean (transfer_of world_cancel_second j)"
    by (simp add: world_cancel_second_facts)
  have size: "getsize world_cancel_second ([''/u/a'', ''/u/b'', ''/u/c''] ! 1) = Inr 1024"
    by (simp add: world_cancel_second_facts)
  have seen: "(\<exists>tk \<in> set (ticks (transfer_of world_cancel_second 1)). snd tk)
          \<or> ((\<forall>tk \<in> set (ticks (transfer_of world_cancel_second 1)). \<not> snd tk)
              \<and> failure (transfer_of world_cancel_second 1) = None
              \<and> cancel_late (transfer_of world_cancel_second 1)
              \<and> Suc 1 < length [''/u/a'', ''/u/b'', ''/u/c''])"
    using world_cancel_second_facts(4) by blast
  note c = upload_cancelled_during_kth_file
    [where shell = "\<lambda>cmd fs. fs" and fs = Map.empty and remote_dir = "''/srv''"
       and sess = session_open and env = world_cancel_second and w = worker_idle
       and r = "(0, [], [])",
     OF session_open_connected world_cancel_second_facts(1) parse_three k
        worker_idle_fields(1) before size, THEN conjunct1, THEN mp, OF seen]
  from c [THEN conjunct1]
  have f1: "\<exists>pre. signals (upload_files session_open world_cancel_second ''/u/a|/u/b|/u/c''
                  ''/srv'' worker_idle)
               = pre @ [Finished False ''Upload failed: Cancelled'']"
    by (simp add: worker_idle_fields) blast
  from c [THEN conjunct2, THEN conjunct1] world_cancel_second_facts(4)
  have f2: "remote_ops (upload_files session_open world_cancel_second ''/u/a|/u/b|/u/c'' ''/srv''
        worker_idle)
       = [Exec (''mkdir -p '' @ quoted ''/srv''),
          Put ''/u/a'' ''/srv/a'' True, Put ''/u/b'' ''/srv/b'' False]"
    by (simp add: worker_idle_fields normalize_srv upload_dest_examples)
  from c [THEN conjunct2, THEN conjunct2, THEN conjunct2, THEN spec, of 0]
  have f3: "remote_after (\<lambda>cmd fs. fs) Map.empty
        (remote_ops (upload_files session_open world_cancel_second ''/u/a|/u/b|/u/c'' ''/srv''
           worker_idle)) ''/srv/a''
       = Some (Whole ''/u/a'')"
    by (simp add: upload_dest_examples)
  note first = f1 f2 f3
  have k0: "0 < length [''/u/a'']" by simp
  have before0: "\<forall>j < 0. (\<exists>n. getsize world_cancel_late ([''/u/a''] ! j) = Inr n)
                  \<and> clean (transfer_of world_cancel_late j)"
    by simp
  have size0: "getsize world_cancel_late ([''/u/a''] ! 0) = Inr 1024"
    by (simp add: world_cancel_late_facts)
  have late: "(\<forall>tk \<in> set (ticks (transfer_of world_cancel_late 0)). \<not> snd tk)
          \<and> failure (transfer_of world_cancel_late 0) = None \<and> Suc 0 = length [''/u/a'']"
    using world_cancel_late_facts(3,4) by simp
  from upload_cancelled_during_kth_file
    [where shell = "\<lambda>cmd fs. fs" and fs = Map.empty and remote_dir = "''/srv''"
       and sess = session_open and env = world_cancel_late and w = worker_idle
       and r = "(0, [], [])",
     OF session_open_connected world_cancel_late_facts(1) parse_one k0
        worker_idle_fields(1) before0 size0, THEN conjunct2, THEN mp, OF late, THEN conjunct1]
  have second: "\<exists>pre. signals (upload_files session_open world_cancel_late ''/u/a'' ''/srv''
                  worker_idle)
               = pre @ [Finished True ''Upload completed.'']"
    by (simp add: worker_idle_fields) blast
  from first second rq session_open_connected worker_idle_fields(1)
    world_cancel_second_facts(3) world_cancel_late_facts(5)
  show ?thesis by blast
qed

text \<open>
  C2 as the specification words it fails in two ways. When the request comes after the
  last progress callback of the last file, no checkpoint is left to see the flag, and the
  job reports success although the flag is set. And when the file cut short has the base
  name of a file transferred before it, the two share a destination: what is left there
  is the beginning of the later file, not the earlier file.
\<close>

theorem upload_cancel_after_last_callback_counterexample:
  "cancel_late (transfer_of world_cancel_late 0)
   \<and> signals (upload_files session_open world_cancel_late ''/u/a'' ''/srv'' worker_idle)
       = [Status ''Ensuring remote dir: /srv'',
          Status ''[1/1] Uploading file -> /srv/a'',
          Status ''Uploading: a'', Progress 0, Progress 100, Progress 100,
          Finished True ''Upload completed.'']
   \<and> cancel (upload_files session_open world_cancel_late ''/u/a'' ''/srv'' worker_idle)
   \<and> remote_ops (upload_files session_open world_cancel_second ''/x/a|/y/a|/z/c'' ''/srv''
        worker_idle)
       = [Exec (''mkdir -p '' @ quoted ''/srv''),
          Put ''/x/a'' ''/srv/a'' True, Put ''/y/a'' ''/srv/a'' False]
   \<and> remote_after (\<lambda>cmd fs. fs) Map.empty
        (remote_ops (upload_files session_open world_cancel_second ''/x/a|/y/a|/z/c'' ''/srv''
           worker_idle)) ''/srv/a''
       = Some (Partial ''/y/a'')"
proof -
  have j: "join_remote ''/srv'' ''a'' = ''/srv/a''"
    by (simp add: join_remote_def normalize_srv endswith_def Let_def suffix_to_prefix)
  have n1: "show_nat (Suc 0) = ''1''"
    by code_simp
  have b: "basename ''/u/a'' = ''a''"
    by (simp add: basename_def)
  have late: "signals (upload_files session_open world_cancel_late ''/u/a'' ''/srv'' worker_idle)
       = [Status ''Ensuring remote dir: /srv'',
          Status ''[1/1] Uploading file -> /srv/a'',
          Status ''Uploading: a'', Progress 0, Progress 100, Progress 100,
          Finished True ''Upload completed.'']
   \<and> cancel (upload_files session_open world_cancel_late ''/u/a'' ''/srv'' worker_idle)"
    by (simp add: upload_files_def upload_files_try_def parse_one normalize_srv j n1 b Let_def
        and_then_def emit_def exec_def ret_def raise_def is_connected_def session_open_def
        world_cancel_late_def world_demo_def worker_idle_def upload_each.simps put_file_def
        sftp_put_def library_transfer_def put_cb_def emit_percent_def percent_examples
        check_cancel_def)
  have k: "1 < length [''/x/a'', ''/y/a'', ''/z/c'']" by simp
  have before: "\<forall>j < 1. (\<exists>n. getsize world_cancel_second ([''/x/a'', ''/y/a'', ''/z/c''] ! j) = Inr n)
                  \<and> clean (transfer_of world_cancel_second j)"
    by (simp add: world_cancel_second_facts)
  have size: "getsize world_cancel_second ([''/x/a'', ''/y/a'', ''/z/c''] ! 1) = Inr 1024"
    by (simp add: world_cancel_second_facts)
  have seen: "(\<exists>tk \<in> set (ticks (transfer_of world_cancel_second 1)). snd tk)
               \<or> ((\<forall>tk \<in> set (ticks (transfer_of world_cancel_second 1)). \<not> snd tk)
                   \<and> failure (transfer_of world_cancel_second 1) = None
                   \<and> cancel_late (transfer_of world_cancel_second 1)
                   \<and> Suc 1 < length [''/x/a'', ''/y/a'', ''/z/c''])"
    using world_cancel_second_facts(4) by blast
  from upload_files_cancelled_result
    [where remote_dir = "''/srv''" and sess = session_open and env = world_cancel_second
       and w = worker_idle and r = "(0, [], [])",
     OF session_open_connected world_cancel_second_facts(1) parse_same_name k
        worker_idle_fields(1) before size seen]
  obtain pre where "upload_files session_open world_cancel_second ''/x/a|/y/a|/z/c'' ''/srv''
        worker_idle =
        worker_idle\<lparr>cancel := True,
          signals := signals worker_idle @ pre @ [Finished False ''Upload failed: Cancelled''],
          remote_ops := remote_ops worker_idle
            @ [Exec (''mkdir -p '' @ quoted (normalize_remote ''/srv''))]
            @ map (\<lambda>lp. Put lp (upload_dest ''/srv'' lp) True)
                (take 1 [''/x/a'', ''/y/a'', ''/z/c''])
            @ [Put ([''/x/a'', ''/y/a'', ''/z/c''] ! 1)
                 (upload_dest ''/srv'' ([''/x/a'', ''/y/a'', ''/z/c''] ! 1))
                 (\<not> (\<exists>tk \<in> set (ticks (transfer_of world_cancel_second 1)). snd tk))]\<rparr>"
    by blast
  with world_cancel_second_facts(4)
  have ops: "remote_ops (upload_files session_open world_cancel_second ''/x/a|/y/a|/z/c'' ''/srv''
        worker_idle)
       = [Exec (''mkdir -p '' @ quoted ''/srv''),
          Put ''/x/a'' ''/srv/a'' True, Put ''/y/a'' ''/srv/a'' False]"
    by (simp add: worker_idle_fields normalize_srv upload_dest_examples)
  have "remote_after (\<lambda>cmd fs. fs) Map.empty
          [Exec (''mkdir -p '' @ quoted ''/srv''),
           Put ''/x/a'' ''/srv/a'' True, Put ''/y/a'' ''/srv/a'' False] ''/srv/a''
        = Some (Partial ''/y/a'')"
    by (simp add: remote_after_def)
  with ops late world_cancel_late_facts(5) show ?thesis by simp
qed

end
